theory Spec2Isabelle
  imports Complex_Main "HOL-Library.Log_Nat"
begin

section \<open>JavaScript values\<close>

text \<open>
  The server is one TypeScript module, \<^verbatim>\<open>src/index.ts\<close>. Its inputs are JavaScript
  values: the process environment (strings), the arguments of a tool call (parsed JSON)
  and the objects the mail libraries hand back. A number is an IEEE double: a finite
  value, an infinity or NaN. Every finite double is a rational, so the finite values are
  modelled as \<^typ>\<open>rat\<close>.
\<close>

datatype jsnumber = Finite rat | PosInfinity | NegInfinity | NaN

text \<open>\<^verbatim>\<open>Number.isInteger\<close>: finite and without a fractional part.\<close>

fun isInteger :: "jsnumber \<Rightarrow> bool" where
  "isInteger (Finite q) = (of_int \<lfloor>q\<rfloor> = q)"
| "isInteger PosInfinity = False"
| "isInteger NegInfinity = False"
| "isInteger NaN = False"

text \<open>
  A thrown \<^verbatim>\<open>Error\<close>: its \<^verbatim>\<open>name\<close> and its \<^verbatim>\<open>message\<close>.
\<close>

record error =
  err_name :: string
  message :: string

definition Error :: "string \<Rightarrow> error" where
  "Error msg = \<lparr>err_name = ''Error'', message = msg\<rparr>"

definition TypeError :: "string \<Rightarrow> error" where
  "TypeError msg = \<lparr>err_name = ''TypeError'', message = msg\<rparr>"

datatype jsval =
    JUndefined
  | JNull
  | JBool bool
  | JNumber jsnumber
  | JBigInt int
  | JString string
  | JDate "int option"
  | JArray "jsval list"
  | JObject "(string \<times> jsval) list"

text \<open>
  \<^verbatim>\<open>obj[key]\<close> on an object: the property's value, \<^verbatim>\<open>undefined\<close> when the object has
  no such property. \<^term>\<open>JDate None\<close> is an invalid date (its time value is NaN).
\<close>

definition get_prop :: "(string \<times> jsval) list \<Rightarrow> string \<Rightarrow> jsval" where
  "get_prop kvs k = (case map_of kvs k of None \<Rightarrow> JUndefined | Some v \<Rightarrow> v)"

section \<open>Configuration resolver\<close>

text \<open>
  \<^verbatim>\<open>
  class InvalidEnvError extends Error {
    constructor(message: string) { super(message); this.name = 'InvalidEnvError'; }
  }
  \<close>
\<close>

definition InvalidEnvError :: "string \<Rightarrow> error" where
  "InvalidEnvError msg = \<lparr>err_name = ''InvalidEnvError'', message = msg\<rparr>"

text \<open>
  The pattern \<^verbatim>\<open>/^\d+$/\<close> (no flags): one or more of the characters 0 to 9 and nothing
  else, from the start of the string to its end. The characters 0 to 9 are the codes
  48 to 57.
\<close>

definition is_digit :: "char \<Rightarrow> bool" where
  "is_digit c = ((48::nat) \<le> of_char c \<and> of_char c \<le> (57::nat))"

definition digits_only :: "string \<Rightarrow> bool" where
  "digits_only s = (s \<noteq> [] \<and> list_all is_digit s)"

text \<open>The mathematical value of a decimal digit string.\<close>

definition digit_value :: "char \<Rightarrow> nat" where
  "digit_value c = of_char c - (48::nat)"

definition decimal :: "string \<Rightarrow> nat" where
  "decimal s = foldl (\<lambda>n c. 10 * n + digit_value c) 0 s"

text \<open>
  The number value of a natural number, as Node's engine computes it for a decimal
  literal: the nearest double, ties to the even significand. It is exact below \<open>2^53\<close>,
  a 53-bit significand times a power of two above, and \<^verbatim>\<open>Infinity\<close> once the rounded
  value reaches \<open>2^1024\<close>. Here \<open>floorlog 2 v\<close> is the number of bits of \<open>v\<close>.
\<close>

definition toDouble :: "nat \<Rightarrow> jsnumber" where
  "toDouble v =
     (if v < 2 ^ 53 then Finite (of_nat v)
      else
        let e = floorlog 2 v - 53;
            q = v div 2 ^ e;
            r = v mod 2 ^ e;
            h = 2 ^ (e - 1);
            q' = (if h < r \<or> (r = h \<and> odd q) then q + 1 else q);
            w = q' * 2 ^ e
        in if 2 ^ 1024 \<le> w then PosInfinity else Finite (of_nat w))"

text \<open>
  \<^verbatim>\<open>Number(s)\<close> for a string that passed \<^verbatim>\<open>/^\d+$/\<close>: the number value of the decimal
  literal.
\<close>

definition Number_of_digits :: "string \<Rightarrow> jsnumber" where
  "Number_of_digits s = toDouble (decimal s)"

text \<open>
  The zod validators \<^verbatim>\<open>parseEnv\<close> uses, on a value of \<^verbatim>\<open>process.env\<close> (a string, or
  \<^verbatim>\<open>undefined\<close> for a variable that is not set). \<^verbatim>\<open>z.string()\<close> refuses \<^verbatim>\<open>undefined\<close>.
  The pattern behind \<^verbatim>\<open>.email()\<close> belongs to the zod library and is a parameter here.
\<close>

definition z_string_email :: "(string \<Rightarrow> bool) \<Rightarrow> string option \<Rightarrow> string option" where
  "z_string_email email v =
     (case v of None \<Rightarrow> None | Some s \<Rightarrow> if email s then Some s else None)"

definition z_string_min :: "nat \<Rightarrow> string option \<Rightarrow> string option" where
  "z_string_min n v =
     (case v of None \<Rightarrow> None | Some s \<Rightarrow> if n \<le> length s then Some s else None)"

definition z_string_digits_Number :: "string option \<Rightarrow> jsnumber option" where
  "z_string_digits_Number v =
     (case v of None \<Rightarrow> None
      | Some s \<Rightarrow> if digits_only s then Some (Number_of_digits s) else None)"

record env =
  EMAIL_USER :: string
  EMAIL_PASSWORD :: string
  IMAP_HOST :: string
  IMAP_PORT :: jsnumber
  SMTP_HOST :: string
  SMTP_PORT :: jsnumber

text \<open>
  \<^verbatim>\<open>
  const parseEnv = () => {
    dotenv.config();
    const envParseResult = z.object({
      EMAIL_USER: z.string().email(),
      EMAIL_PASSWORD: z.string().min(1),
      IMAP_HOST: z.string().min(1),
      IMAP_PORT: z.string().regex(/^\d+$/).transform(Number),
      SMTP_HOST: z.string().min(1),
      SMTP_PORT: z.string().regex(/^\d+$/).transform(Number),
    }).safeParse(process.env);
    if (!envParseResult.success) throw new InvalidEnvError('Environment validation failed:');
    return envParseResult.data;
  }
  \<close>
  \<open>penv\<close> is \<^verbatim>\<open>process.env\<close> after \<^verbatim>\<open>dotenv.config()\<close> has filled it.
\<close>

definition parseEnv :: "(string \<Rightarrow> bool) \<Rightarrow> (string \<Rightarrow> string option) \<Rightarrow> error + env" where
  "parseEnv email penv =
     (case z_string_email email (penv ''EMAIL_USER'') of None \<Rightarrow> Inl (InvalidEnvError ''Environment validation failed:'')
      | Some eu \<Rightarrow>
     (case z_string_min 1 (penv ''EMAIL_PASSWORD'') of None \<Rightarrow> Inl (InvalidEnvError ''Environment validation failed:'')
      | Some pw \<Rightarrow>
     (case z_string_min 1 (penv ''IMAP_HOST'') of None \<Rightarrow> Inl (InvalidEnvError ''Environment validation failed:'')
      | Some ih \<Rightarrow>
     (case z_string_digits_Number (penv ''IMAP_PORT'') of None \<Rightarrow> Inl (InvalidEnvError ''Environment validation failed:'')
      | Some ip \<Rightarrow>
     (case z_string_min 1 (penv ''SMTP_HOST'') of None \<Rightarrow> Inl (InvalidEnvError ''Environment validation failed:'')
      | Some sh \<Rightarrow>
     (case z_string_digits_Number (penv ''SMTP_PORT'') of None \<Rightarrow> Inl (InvalidEnvError ''Environment validation failed:'')
      | Some sp \<Rightarrow>
        Inr \<lparr>EMAIL_USER = eu, EMAIL_PASSWORD = pw, IMAP_HOST = ih, IMAP_PORT = ip,
             SMTP_HOST = sh, SMTP_PORT = sp\<rparr>))))))"

text \<open>
  The module runs top to bottom: \<^verbatim>\<open>const env = parseEnv()\<close> comes first, the tools and
  resources are registered after it and \<^verbatim>\<open>runServer()\<close> is the last statement. An
  exception at \<^verbatim>\<open>parseEnv()\<close> ends the evaluation of the module, so nothing is registered
  and nothing is served.
\<close>

datatype process = Exited error | Serving env "string list"

definition startup :: "(string \<Rightarrow> bool) \<Rightarrow> (string \<Rightarrow> string option) \<Rightarrow> process" where
  "startup email penv =
     (case parseEnv email penv of
        Inl e \<Rightarrow> Exited e
      | Inr cfg \<Rightarrow>
          Serving cfg [''send_email'', ''search_emails'', ''list_folders'', ''inbox'', ''folders''])"

fun served :: "process \<Rightarrow> string list" where
  "served (Exited e) = []"
| "served (Serving cfg ops) = ops"

text \<open>
  Sample inputs. \<open>sample_email\<close> stands in for the library's email pattern in the
  examples below; \<open>big_port\<close> is a one followed by 309 zeros.
\<close>

definition sample_email :: "string \<Rightarrow> bool" where
  "sample_email s = (CHR ''@'' \<in> set s)"

definition big_port :: string where
  "big_port = CHR ''1'' # replicate 309 (CHR ''0'')"

definition sample_env :: "string \<Rightarrow> string \<Rightarrow> string option" where
  "sample_env imap_port =
     map_of [(''EMAIL_USER'', ''ann@example.org''), (''EMAIL_PASSWORD'', ''secret''),
             (''IMAP_HOST'', ''imap.example.org''), (''IMAP_PORT'', imap_port),
             (''SMTP_HOST'', ''smtp.example.org''), (''SMTP_PORT'', ''465'')]"

section \<open>Address mapper\<close>

text \<open>
  The transport's address record (\<^verbatim>\<open>MessageAddressObject\<close>: both fields may be absent)
  and the server's own.
  \<^verbatim>\<open>
  type EmailAddress = { name?: string; address: string; }
  const mapAddress = (addr: MessageAddressObject): EmailAddress => ({
    name: addr.name,
    address: addr.address || ''
  })
  \<close>
  \<^verbatim>\<open>a || b\<close> is \<^verbatim>\<open>b\<close> when \<^verbatim>\<open>a\<close> is falsy: \<^verbatim>\<open>undefined\<close> or the empty string here.
\<close>

record MessageAddressObject =
  ma_name :: "string option"
  ma_address :: "string option"

record EmailAddress =
  name :: "string option"
  address :: string

definition mapAddress :: "MessageAddressObject \<Rightarrow> EmailAddress" where
  "mapAddress addr =
     \<lparr>name = ma_name addr,
      address = (case ma_address addr of None \<Rightarrow> '''' | Some a \<Rightarrow> if a = '''' then '''' else a)\<rparr>"

section \<open>Query and option schema layer\<close>

text \<open>
  A zod schema takes a value and gives the parsed value or an issue; only the verdict
  and the parsed value matter here, so a schema is a partial function on values.
  \<^verbatim>\<open>z.string()\<close>, \<^verbatim>\<open>z.boolean()\<close>, \<^verbatim>\<open>z.bigint()\<close> test the type of the value;
  \<^verbatim>\<open>z.number()\<close> refuses NaN as well, \<^verbatim>\<open>z.date()\<close> an invalid date.
\<close>

type_synonym schema = "jsval \<Rightarrow> jsval option"

definition zString :: schema where
  "zString v = (case v of JString s \<Rightarrow> Some v | _ \<Rightarrow> None)"

definition zBoolean :: schema where
  "zBoolean v = (case v of JBool b \<Rightarrow> Some v | _ \<Rightarrow> None)"

definition zNumber :: schema where
  "zNumber v = (case v of JNumber n \<Rightarrow> if n = NaN then None else Some v | _ \<Rightarrow> None)"

definition zBigint :: schema where
  "zBigint v = (case v of JBigInt i \<Rightarrow> Some v | _ \<Rightarrow> None)"

definition zDate :: schema where
  "zDate v = (case v of JDate (Some t) \<Rightarrow> Some v | _ \<Rightarrow> None)"

text \<open>The checks \<^verbatim>\<open>.min(n)\<close> on a string, \<^verbatim>\<open>.int()\<close> and \<^verbatim>\<open>.positive()\<close> on a number.\<close>

definition zMin :: "nat \<Rightarrow> schema \<Rightarrow> schema" where
  "zMin n p v =
     (case p v of Some (JString s) \<Rightarrow> if n \<le> length s then Some (JString s) else None
      | _ \<Rightarrow> None)"

definition zInt :: "schema \<Rightarrow> schema" where
  "zInt p v =
     (case p v of Some (JNumber n) \<Rightarrow> if isInteger n then Some (JNumber n) else None
      | _ \<Rightarrow> None)"

fun isPositive :: "jsnumber \<Rightarrow> bool" where
  "isPositive (Finite q) = (0 < q)"
| "isPositive PosInfinity = True"
| "isPositive NegInfinity = False"
| "isPositive NaN = False"

definition zPositive :: "schema \<Rightarrow> schema" where
  "zPositive p v =
     (case p v of Some (JNumber n) \<Rightarrow> if isPositive n then Some (JNumber n) else None
      | _ \<Rightarrow> None)"

text \<open>
  \<^verbatim>\<open>.optional()\<close> lets \<^verbatim>\<open>undefined\<close> through; \<^verbatim>\<open>.default(d)\<close> replaces it by \<open>d\<close>.
\<close>

definition zOptional :: "schema \<Rightarrow> schema" where
  "zOptional p v = (if v = JUndefined then Some JUndefined else p v)"

definition zDefault :: "jsval \<Rightarrow> schema \<Rightarrow> schema" where
  "zDefault d p v = (if v = JUndefined then Some d else p v)"

text \<open>
  \<^verbatim>\<open>z.array(p)\<close>: an array whose every element passes \<open>p\<close>. \<^verbatim>\<open>z.union([...])\<close>: the
  first member that accepts. \<^verbatim>\<open>z.record(z.string(), p)\<close>: an object whose every value
  passes \<open>p\<close>.
\<close>

definition zArray :: "schema \<Rightarrow> schema" where
  "zArray p v =
     (case v of JArray xs \<Rightarrow> map_option JArray (those (map p xs)) | _ \<Rightarrow> None)"

definition zUnion :: "schema list \<Rightarrow> schema" where
  "zUnion ps v = (case List.find (\<lambda>p. p v \<noteq> None) ps of None \<Rightarrow> None | Some p \<Rightarrow> p v)"

definition zRecord :: "schema \<Rightarrow> schema" where
  "zRecord p v =
     (case v of
        JObject kvs \<Rightarrow>
          map_option JObject (those (map (\<lambda>(k, x). map_option (Pair k) (p x)) kvs))
      | _ \<Rightarrow> None)"

text \<open>
  \<^verbatim>\<open>z.object(shape)\<close>: the value is an object and, for every key of the shape, the
  property under that key (\<^verbatim>\<open>undefined\<close> when the object has none) passes the key's
  schema. Keys outside the shape are dropped from the parsed value; a key of the shape
  is kept when the object had it or its parsed value is defined.
\<close>

definition zObject :: "(string \<times> schema) list \<Rightarrow> schema" where
  "zObject shape v =
     (case v of
        JObject kvs \<Rightarrow>
          (case those (map (\<lambda>(k, p). map_option (Pair k) (p (get_prop kvs k))) shape) of
             None \<Rightarrow> None
           | Some out \<Rightarrow>
               Some (JObject (filter (\<lambda>(k, x). k \<in> fst ` set kvs \<or> x \<noteq> JUndefined) out)))
      | _ \<Rightarrow> None)"

text \<open>
  \<^verbatim>\<open>
  let searchQuerySchema = z.object({
    seq: z.string().optional(),
    answered: z.boolean().optional(),
    deleted: z.boolean().optional(),
    draft: z.boolean().optional(),
    flagged: z.boolean().optional(),
    seen: z.boolean().optional(),
    all: z.boolean().optional(),
    new: z.boolean().optional(),
    old: z.boolean().optional(),
    recent: z.boolean().optional(),
    from: z.string().optional(),
    to: z.string().optional(),
    cc: z.string().optional(),
    bcc: z.string().optional(),
    body: z.string().optional(),
    subject: z.string().min(1),
    larger: z.number().int().positive().optional(),
    smaller: z.number().int().positive().optional(),
    uid: z.string().optional(),
    modseq: z.bigint().optional(),
    emailId: z.string().optional(),
    threadId: z.string().optional(),
    before: z.date().optional(),
    on: z.date().optional(),
    since: z.date().optional(),
    sentBefore: z.date().optional(),
    sentOn: z.date().optional(),
    sentSince: z.date().optional(),
    keyword: z.string().optional(),
    unKeyword: z.string().optional(),
    header: z.record(z.string(), z.union([z.boolean(), z.string()])).optional(),
  })
  \<close>
  The shape of the first \<^verbatim>\<open>z.object\<close>, key by key. \<^verbatim>\<open>subject\<close> is the one key without
  \<^verbatim>\<open>.optional()\<close>.
\<close>

definition searchQueryShape :: "(string \<times> schema) list" where
  "searchQueryShape =
     [(''seq'', zOptional zString),
      (''answered'', zOptional zBoolean),
      (''deleted'', zOptional zBoolean),
      (''draft'', zOptional zBoolean),
      (''flagged'', zOptional zBoolean),
      (''seen'', zOptional zBoolean),
      (''all'', zOptional zBoolean),
      (''new'', zOptional zBoolean),
      (''old'', zOptional zBoolean),
      (''recent'', zOptional zBoolean),
      (''from'', zOptional zString),
      (''to'', zOptional zString),
      (''cc'', zOptional zString),
      (''bcc'', zOptional zString),
      (''body'', zOptional zString),
      (''subject'', zMin 1 zString),
      (''larger'', zOptional (zPositive (zInt zNumber))),
      (''smaller'', zOptional (zPositive (zInt zNumber))),
      (''uid'', zOptional zString),
      (''modseq'', zOptional zBigint),
      (''emailId'', zOptional zString),
      (''threadId'', zOptional zString),
      (''before'', zOptional zDate),
      (''on'', zOptional zDate),
      (''since'', zOptional zDate),
      (''sentBefore'', zOptional zDate),
      (''sentOn'', zOptional zDate),
      (''sentSince'', zOptional zDate),
      (''keyword'', zOptional zString),
      (''unKeyword'', zOptional zString),
      (''header'', zOptional (zRecord (zUnion [zBoolean, zString])))]"

text \<open>
  \<^verbatim>\<open>
  searchQuerySchema = searchQuerySchema.extend({
    // recursive OR queries
    or: z.array(searchQuerySchema).optional(),
  })
  \<close>
  The right-hand side is evaluated before the assignment: the elements of \<^verbatim>\<open>or\<close> are
  checked against the first schema, the one without \<^verbatim>\<open>or\<close>.
\<close>

definition searchQuerySchema :: schema where
  "searchQuerySchema =
     zObject (searchQueryShape @ [(''or'', zOptional (zArray (zObject searchQueryShape)))])"

text \<open>The keys of the query other than \<^verbatim>\<open>subject\<close>.\<close>

definition optionalKeys :: "string list" where
  "optionalKeys =
     [''seq'', ''answered'', ''deleted'', ''draft'', ''flagged'', ''seen'', ''all'', ''new'',
      ''old'', ''recent'', ''from'', ''to'', ''cc'', ''bcc'', ''body'', ''larger'', ''smaller'',
      ''uid'', ''modseq'', ''emailId'', ''threadId'', ''before'', ''on'', ''since'',
      ''sentBefore'', ''sentOn'', ''sentSince'', ''keyword'', ''unKeyword'', ''header'', ''or'']"

text \<open>
  \<^verbatim>\<open>
  const fetchOptionsSchema = z.object({
    uid: z.boolean().optional(),
    flags: z.boolean().optional(),
    bodyStructure: z.boolean().optional(),
    envelope: z.boolean().optional(),
    internalDate: z.boolean().optional(),
    size: z.boolean().optional(),
    source: z.union([z.boolean(), z.object({})]).optional(),
    threadId: z.boolean().optional(),
    labels: z.boolean().optional(),
    headers: z.union([z.boolean(), z.array(z.string())]).optional(),
    bodyParts: z.array(z.string()).optional(),
  })
  \<close>
\<close>

definition fetchOptionsSchema :: schema where
  "fetchOptionsSchema =
     zObject
       [(''uid'', zOptional zBoolean),
        (''flags'', zOptional zBoolean),
        (''bodyStructure'', zOptional zBoolean),
        (''envelope'', zOptional zBoolean),
        (''internalDate'', zOptional zBoolean),
        (''size'', zOptional zBoolean),
        (''source'', zOptional (zUnion [zBoolean, zObject []])),
        (''threadId'', zOptional zBoolean),
        (''labels'', zOptional zBoolean),
        (''headers'', zOptional (zUnion [zBoolean, zArray zString])),
        (''bodyParts'', zOptional (zArray zString))]"

text \<open>
  The input of \<^verbatim>\<open>search_emails\<close>, checked before the handler runs:
  \<^verbatim>\<open>
  {
    query: searchQuerySchema,
    fetchOptions: fetchOptionsSchema,
    folder: z.string().default("INBOX"),
    limit: z.number().int().positive().default(10),
  }
  \<close>
  The handler below takes the parsed values: \<open>folder\<close> a string and \<open>limit\<close> an integer,
  positive by this schema.
\<close>

definition search_emails_input :: schema where
  "search_emails_input =
     zObject
       [(''query'', searchQuerySchema),
        (''fetchOptions'', fetchOptionsSchema),
        (''folder'', zDefault (JString ''INBOX'') zString),
        (''limit'', zDefault (JNumber (Finite 10)) (zPositive (zInt zNumber)))]"

section \<open>Entities\<close>

text \<open>
  \<^verbatim>\<open>
  type EmailMessage = {
    id: number; subject: string; from: EmailAddress[]; to: EmailAddress[]; date: Date;
    text?: string; html?: string;
  }
  type EmailFolder = { name: string; path: string; specialUse?: string | null; flags: string[]; }
  \<close>
  The fields carry a prefix where the source's name is taken in Isabelle (\<open>id\<close>, \<open>from\<close>,
  \<open>text\<close>) or by another record. A date is the time value of a valid \<^verbatim>\<open>Date\<close>, the
  milliseconds since the epoch. \<open>m_subject\<close> and \<open>m_date\<close> are optional because the
  envelope they are copied from may lack them at run time.
\<close>

record EmailMessage =
  m_id :: nat
  m_subject :: "string option"
  m_from :: "EmailAddress list"
  m_to :: "EmailAddress list"
  m_date :: "int option"
  m_text :: "string option"
  m_html :: "string option"

record EmailFolder =
  f_name :: string
  f_path :: string
  f_specialUse :: "string option"
  f_flags :: "string list"

text \<open>
  What the mailbox library hands back: a fetched message (its envelope is there only
  when the fetch query asked for it; source and body parts likewise) and an entry of
  the mailbox listing (\<open>flags\<close> is a \<^verbatim>\<open>Set\<close>, listed here in its iteration order).
\<close>

record MessageEnvelopeObject =
  env_date :: "int option"
  env_subject :: "string option"
  env_from :: "MessageAddressObject list option"
  env_to :: "MessageAddressObject list option"

record FetchMessageObject =
  seq :: nat
  uid :: nat
  envelope :: "MessageEnvelopeObject option"
  source :: "string option"
  bodyParts :: "(string \<times> string) list option"

record ListResponse =
  lr_name :: string
  lr_path :: string
  lr_specialUse :: "string option"
  lr_flags :: "string list"

text \<open>The options and the receipt of the delivery library's \<^verbatim>\<open>sendMail\<close>.\<close>

record MailOptions =
  mo_from :: string
  mo_to :: string
  mo_subject :: string
  mo_text :: string
  mo_html :: "string option"

record SentMessageInfo =
  messageId :: string

text \<open>
  What a handler returns to the host. The text of a content item is either a literal
  string or \<^verbatim>\<open>JSON.stringify(value, null, 2)\<close> of a value the handler built; the
  serialisation itself is the runtime's and is kept symbolic, so that the value can be
  read off the result.
\<close>

datatype payload =
    Messages "EmailMessage list"
  | Folders "EmailFolder list"
  | Receipt string string

datatype content_text = Plain string | JSON_stringify payload

record CallToolResult =
  content :: "content_text list"
  isError :: "bool option"

record ResourceContents =
  uri :: string
  mimeType :: string
  rc_text :: content_text

record ReadResourceResult =
  contents :: "ResourceContents list"

section \<open>Effects\<close>

text \<open>
  The mail libraries are outside the repository: a mailbox client (\<^verbatim>\<open>ImapFlow\<close>) and a
  delivery transporter (nodemailer) are records of operations on a state \<open>'s\<close> that
  stands for everything beyond the process (servers, network, the library's own
  connection state). An operation returns normally or throws. \<^verbatim>\<open>fetch\<close> is an async
  generator: it yields messages and may then throw.

  The flag of \<^verbatim>\<open>search\<close> is its option \<^verbatim>\<open>{ uid: true }\<close>. \<^verbatim>\<open>fetch(range, query, options)\<close>
  has the same option as its third argument; the flag is false when the argument is
  left out.
\<close>

datatype range = SeqString string | Numbers "nat list"

record 's ImapFlow =
  connect :: "'s \<Rightarrow> (error + unit) \<times> 's"
  mailboxOpen :: "string \<Rightarrow> 's \<Rightarrow> (error + unit) \<times> 's"
  search :: "jsval \<Rightarrow> bool \<Rightarrow> 's \<Rightarrow> (error + nat list) \<times> 's"
  fetch :: "range \<Rightarrow> jsval \<Rightarrow> bool \<Rightarrow> 's \<Rightarrow> (FetchMessageObject list \<times> error option) \<times> 's"
  list :: "'s \<Rightarrow> (error + ListResponse list) \<times> 's"
  logout :: "'s \<Rightarrow> (error + unit) \<times> 's"

record 's Transporter =
  sendMail :: "MailOptions \<Rightarrow> 's \<Rightarrow> (error + SentMessageInfo) \<times> 's"

text \<open>
  Every call a handler makes is recorded, in order. A handler is an action: from the
  outside state and the calls made so far to the result (a value or a thrown error),
  the new outside state and the calls made.
\<close>

datatype event =
    Connect
  | MailboxOpen string
  | Search jsval bool
  | Fetch range jsval bool
  | ListMailboxes
  | Logout
  | SendMail MailOptions
  | ConsoleError string

type_synonym ('s, 'a) action = "'s \<times> event list \<Rightarrow> (error + 'a) \<times> ('s \<times> event list)"

definition return :: "'a \<Rightarrow> ('s, 'a) action" where
  "return a = (\<lambda>st. (Inr a, st))"

definition throw :: "error \<Rightarrow> ('s, 'a) action" where
  "throw e = (\<lambda>st. (Inl e, st))"

definition bind :: "('s, 'a) action \<Rightarrow> ('a \<Rightarrow> ('s, 'b) action) \<Rightarrow> ('s, 'b) action" where
  "bind m k = (\<lambda>st. case m st of (Inl e, st') \<Rightarrow> (Inl e, st') | (Inr a, st') \<Rightarrow> k a st')"

text \<open>\<^verbatim>\<open>await call\<close>: the call is made and recorded, whatever its result.\<close>

definition await :: "event \<Rightarrow> ('s \<Rightarrow> (error + 'a) \<times> 's) \<Rightarrow> ('s, 'a) action" where
  "await ev call = (\<lambda>(s, tr). case call s of (r, s') \<Rightarrow> (r, (s', tr @ [ev])))"

definition console_error :: "string \<Rightarrow> ('s, unit) action" where
  "console_error msg = (\<lambda>(s, tr). (Inr (), (s, tr @ [ConsoleError msg])))"

text \<open>A computation inside the process: it touches nothing outside and may throw.\<close>

definition lift :: "error + 'a \<Rightarrow> ('s, 'a) action" where
  "lift r = (\<lambda>st. (r, st))"

text \<open>
  \<^verbatim>\<open>try { m } catch (error) { h(error) }\<close> and \<^verbatim>\<open>try { m } finally { f }\<close>. The
  \<^verbatim>\<open>finally\<close> block runs after \<open>m\<close> has returned or thrown; when it throws itself, its
  error replaces the result of \<open>m\<close>, otherwise that result stands.
\<close>

definition try_catch :: "('s, 'a) action \<Rightarrow> (error \<Rightarrow> ('s, 'a) action) \<Rightarrow> ('s, 'a) action" where
  "try_catch m h = (\<lambda>st. case m st of (Inl e, st') \<Rightarrow> h e st' | (Inr a, st') \<Rightarrow> (Inr a, st'))"

definition try_finally :: "('s, 'a) action \<Rightarrow> ('s, unit) action \<Rightarrow> ('s, 'a) action" where
  "try_finally m f =
     (\<lambda>st. case m st of
        (r, st') \<Rightarrow> (case f st' of (Inl e, st'') \<Rightarrow> (Inl e, st'') | (Inr u, st'') \<Rightarrow> (r, st'')))"

text \<open>Running a handler from a state, with no call made yet.\<close>

definition outcome :: "('s, 'a) action \<Rightarrow> 's \<Rightarrow> error + 'a" where
  "outcome m s = fst (m (s, []))"

definition trace :: "('s, 'a) action \<Rightarrow> 's \<Rightarrow> event list" where
  "trace m s = snd (snd (m (s, [])))"

definition final_state :: "('s, 'a) action \<Rightarrow> 's \<Rightarrow> 's" where
  "final_state m s = fst (snd (m (s, [])))"

text \<open>The calls that go to the mailbox client, as against the transporter and the console.\<close>

definition mailbox_call :: "event \<Rightarrow> bool" where
  "mailbox_call ev =
     (case ev of SendMail mailOptions \<Rightarrow> False | ConsoleError msg \<Rightarrow> False | _ \<Rightarrow> True)"

text \<open>
  \<open>emits m P\<close>: whatever the state and the calls made before, \<open>m\<close> only adds calls, and
  every call it adds satisfies \<open>P\<close>.
\<close>

definition emits :: "('s, 'a) action \<Rightarrow> (event \<Rightarrow> bool) \<Rightarrow> bool" where
  "emits m P = (\<forall>s tr. \<exists>evs. snd (snd (m (s, tr))) = tr @ evs \<and> list_all P evs)"

section \<open>Tool and resource handlers\<close>

text \<open>
  The two fetch loops build the same object literal:
  \<^verbatim>\<open>
  messages.push({
    id: message.uid,
    subject: message.envelope.subject,
    from: message.envelope.from.map(mapAddress),
    to: message.envelope.to.map(mapAddress),
    date: message.envelope.date
  });
  \<close>
  Reading a property of \<^verbatim>\<open>undefined\<close> throws a \<^verbatim>\<open>TypeError\<close>: at \<^verbatim>\<open>.subject\<close> when the
  message has no envelope, at \<^verbatim>\<open>.map\<close> when the envelope has no \<^verbatim>\<open>from\<close> or no \<^verbatim>\<open>to\<close>.
  Neither \<^verbatim>\<open>text\<close> nor \<^verbatim>\<open>html\<close> is written.
\<close>

definition toEmailMessage :: "FetchMessageObject \<Rightarrow> error + EmailMessage" where
  "toEmailMessage msg =
     (case envelope msg of
        None \<Rightarrow> Inl (TypeError ''Cannot read properties of undefined (reading 'subject')'')
      | Some env \<Rightarrow>
     (case env_from env of
        None \<Rightarrow> Inl (TypeError ''Cannot read properties of undefined (reading 'map')'')
      | Some from_list \<Rightarrow>
     (case env_to env of
        None \<Rightarrow> Inl (TypeError ''Cannot read properties of undefined (reading 'map')'')
      | Some to_list \<Rightarrow>
          Inr \<lparr>m_id = uid msg,
               m_subject = env_subject env,
               m_from = map mapAddress from_list,
               m_to = map mapAddress to_list,
               m_date = env_date env,
               m_text = None,
               m_html = None\<rparr>)))"

text \<open>
  \<^verbatim>\<open>for await (const message of client.fetch(range, query)) { messages.push(...) }\<close>:
  the messages are taken in the order the generator yields them; the loop ends at the
  first message whose object literal throws, and otherwise with the generator's own
  error when it has one.
\<close>

fun push_each :: "EmailMessage list \<Rightarrow> FetchMessageObject list \<Rightarrow> error + EmailMessage list" where
  "push_each messages [] = Inr messages"
| "push_each messages (msg # rest) =
     (case toEmailMessage msg of
        Inl e \<Rightarrow> Inl e
      | Inr m \<Rightarrow> push_each (messages @ [m]) rest)"

definition for_await_fetch ::
  "'s ImapFlow \<Rightarrow> range \<Rightarrow> jsval \<Rightarrow> bool \<Rightarrow> ('s, EmailMessage list) action" where
  "for_await_fetch client r query by_uid =
     (\<lambda>(s, tr).
        case fetch client r query by_uid s of
          ((yielded, failure), s') \<Rightarrow>
            ((case push_each [] yielded of
                Inl e \<Rightarrow> Inl e
              | Inr messages \<Rightarrow> (case failure of Some e \<Rightarrow> Inl e | None \<Rightarrow> Inr messages)),
             (s', tr @ [Fetch r query by_uid])))"

text \<open>
  \<^verbatim>\<open>xs.slice(0, n)\<close> for an integer \<open>n\<close>: the first \<open>n\<close> elements, and for a negative
  \<open>n\<close> all but the last \<open>-n\<close>.
\<close>

definition slice0 :: "'a list \<Rightarrow> int \<Rightarrow> 'a list" where
  "slice0 xs n = (if n < 0 then take (nat (int (length xs) + n)) xs else take (nat n) xs)"

text \<open>
  \<^verbatim>\<open>
  async ({ to, subject, text, html }) => {
    try {
      const mailOptions = { from: emailUser, to, subject, text, html };
      const info = await smtpTransporter.sendMail(mailOptions);
      return { content: [{ type: "text", text: JSON.stringify({
                 messageId: info.messageId, status: 'Email sent successfully' }, null, 2) }] };
    } catch (error) {
      console.error("Error sending email:", error);
      const err = error as Error;
      return { content: [{ type: "text", text: `Error sending email: ${err.message}` }],
               isError: true };
    }
  }
  \<close>
\<close>

definition send_email ::
  "string \<Rightarrow> 's Transporter \<Rightarrow> string \<Rightarrow> string \<Rightarrow> string \<Rightarrow> string option
     \<Rightarrow> ('s, CallToolResult) action" where
  "send_email emailUser smtpTransporter to subject text html =
     try_catch
       (let mailOptions =
              \<lparr>mo_from = emailUser, mo_to = to, mo_subject = subject, mo_text = text,
               mo_html = html\<rparr>
        in bind (await (SendMail mailOptions) (sendMail smtpTransporter mailOptions)) (\<lambda>info.
           return \<lparr>content = [JSON_stringify (Receipt (messageId info) ''Email sent successfully'')],
                   isError = None\<rparr>))
       (\<lambda>err.
          bind (console_error ''Error sending email:'') (\<lambda>_.
          return \<lparr>content = [Plain (''Error sending email: '' @ message err)],
                  isError = Some True\<rparr>))"

text \<open>
  \<^verbatim>\<open>
  async ({ query, folder, limit, fetchOptions }) => {
    const client = createImapClient();
    try {
      await client.connect();
      await client.mailboxOpen(folder);
      const uids = await client.search(query, { uid: true });
      const messages: EmailMessage[] = [];
      const limitedUids = uids.slice(0, limit);
      if (limitedUids.length > 0) {
        for await (const message of client.fetch(limitedUids, fetchOptions)) { ... }
      }
      return { content: [{ type: "text", text: JSON.stringify(messages, null, 2) }] };
    } catch (error) {
      console.error("Error searching emails:", error);
      const err = error as Error;
      return { content: [{ type: "text", text: `Error searching emails: ${err.message}` }],
               isError: true };
    } finally {
      await client.logout();
    }
  }
  \<close>
  \<open>client\<close> is the fresh client \<^verbatim>\<open>createImapClient()\<close> gives. The search asks for unique
  ids; the fetch is called with two arguments, so its third is left out.
\<close>

definition search_emails_try ::
  "'s ImapFlow \<Rightarrow> jsval \<Rightarrow> string \<Rightarrow> int \<Rightarrow> jsval \<Rightarrow> ('s, CallToolResult) action" where
  "search_emails_try client query folder limit fetchOptions =
     bind (await Connect (connect client)) (\<lambda>_.
     bind (await (MailboxOpen folder) (mailboxOpen client folder)) (\<lambda>_.
     bind (await (Search query True) (search client query True)) (\<lambda>uids.
     let limitedUids = slice0 uids limit in
     bind (if 0 < length limitedUids
           then for_await_fetch client (Numbers limitedUids) fetchOptions False
           else return []) (\<lambda>messages.
     return \<lparr>content = [JSON_stringify (Messages messages)], isError = None\<rparr>))))"

definition search_emails ::
  "'s ImapFlow \<Rightarrow> jsval \<Rightarrow> string \<Rightarrow> int \<Rightarrow> jsval \<Rightarrow> ('s, CallToolResult) action" where
  "search_emails client query folder limit fetchOptions =
     try_finally
       (try_catch (search_emails_try client query folder limit fetchOptions)
          (\<lambda>err.
             bind (console_error ''Error searching emails:'') (\<lambda>_.
             return \<lparr>content = [Plain (''Error searching emails: '' @ message err)],
                     isError = Some True\<rparr>)))
       (await Logout (logout client))"

text \<open>
  \<^verbatim>\<open>
  async () => {
    const client = createImapClient();
    try {
      await client.connect();
      const mailboxes: EmailFolder[] = [];
      const listResponse = await client.list();
      for (const mailbox of listResponse) {
        mailboxes.push({ name: mailbox.name, path: mailbox.path,
                         specialUse: mailbox.specialUse, flags: Array.from(mailbox.flags) });
      }
      return { content: [{ type: "text", text: JSON.stringify(mailboxes, null, 2) }] };
    } catch (error) {
      console.error("Error listing folders:", error);
      const err = error as Error;
      return { content: [{ type: "text", text: `Error listing folders: ${err.message}` }],
               isError: true };
    } finally {
      await client.logout();
    }
  }
  \<close>
\<close>

fun list_folders_loop :: "EmailFolder list \<Rightarrow> ListResponse list \<Rightarrow> EmailFolder list" where
  "list_folders_loop mailboxes [] = mailboxes"
| "list_folders_loop mailboxes (mailbox # rest) =
     list_folders_loop
       (mailboxes @
          [\<lparr>f_name = lr_name mailbox, f_path = lr_path mailbox,
            f_specialUse = lr_specialUse mailbox, f_flags = lr_flags mailbox\<rparr>])
       rest"

definition list_folders_try :: "'s ImapFlow \<Rightarrow> ('s, CallToolResult) action" where
  "list_folders_try client =
     bind (await Connect (connect client)) (\<lambda>_.
     bind (await ListMailboxes (list client)) (\<lambda>listResponse.
     return \<lparr>content = [JSON_stringify (Folders (list_folders_loop [] listResponse))],
             isError = None\<rparr>))"

definition list_folders :: "'s ImapFlow \<Rightarrow> ('s, CallToolResult) action" where
  "list_folders client =
     try_finally
       (try_catch (list_folders_try client)
          (\<lambda>err.
             bind (console_error ''Error listing folders:'') (\<lambda>_.
             return \<lparr>content = [Plain (''Error listing folders: '' @ message err)],
                     isError = Some True\<rparr>)))
       (await Logout (logout client))"

text \<open>
  The comparator of the inbox resource, \<^verbatim>\<open>(a, b) => b.date.getTime() - a.date.getTime()\<close>,
  reads the date of both arguments, so it throws a \<^verbatim>\<open>TypeError\<close> on a message without
  one; \<^verbatim>\<open>sort\<close> calls it on every element once there are two. With every date there,
  \<^verbatim>\<open>sort\<close> is the stable sort by descending time value.
\<close>

definition date_key :: "EmailMessage \<Rightarrow> int" where
  "date_key m = (case m_date m of Some d \<Rightarrow> - d | None \<Rightarrow> 0)"

definition sort_newest_first :: "EmailMessage list \<Rightarrow> error + EmailMessage list" where
  "sort_newest_first messages =
     (if 2 \<le> length messages \<and> list_ex (\<lambda>m. m_date m = None) messages
      then Inl (TypeError ''Cannot read properties of undefined (reading 'getTime')'')
      else Inr (sort_key date_key messages))"

text \<open>
  \<^verbatim>\<open>
  async () => {
    const client = createImapClient();
    try {
      await client.connect();
      await client.mailboxOpen('INBOX');
      // Get the 10 most recent messages
      const messages: EmailMessage[] = [];
      const fetchOptions: FetchQueryObject = { envelope: true };
      for await (const message of client.fetch('1:*', fetchOptions)) { ... }
      // Sort by date, newest first, and limit to 10
      messages.sort((a, b) => b.date.getTime() - a.date.getTime());
      const recentMessages = messages.slice(0, 10);
      return { contents: [{ uri: "mailto:" + emailUser + "/inbox",
                            mimeType: "application/json",
                            text: JSON.stringify(recentMessages, null, 2) }] };
    } catch (error) {
      console.error("Error reading inbox:", error);
      throw error;
    } finally {
      await client.logout();
    }
  }
  \<close>
\<close>

definition inbox_try :: "string \<Rightarrow> 's ImapFlow \<Rightarrow> ('s, ReadResourceResult) action" where
  "inbox_try emailUser client =
     bind (await Connect (connect client)) (\<lambda>_.
     bind (await (MailboxOpen ''INBOX'') (mailboxOpen client ''INBOX'')) (\<lambda>_.
     let fetchOptions = JObject [(''envelope'', JBool True)] in
     bind (for_await_fetch client (SeqString ''1:*'') fetchOptions False) (\<lambda>messages.
     bind (lift (sort_newest_first messages)) (\<lambda>sorted.
     let recentMessages = slice0 sorted 10 in
     return \<lparr>contents =
               [\<lparr>uri = ''mailto:'' @ emailUser @ ''/inbox'',
                 mimeType = ''application/json'',
                 rc_text = JSON_stringify (Messages recentMessages)\<rparr>]\<rparr>))))"

definition inbox_resource :: "string \<Rightarrow> 's ImapFlow \<Rightarrow> ('s, ReadResourceResult) action" where
  "inbox_resource emailUser client =
     try_finally
       (try_catch (inbox_try emailUser client)
          (\<lambda>err. bind (console_error ''Error reading inbox:'') (\<lambda>_. throw err)))
       (await Logout (logout client))"

text \<open>
  \<^verbatim>\<open>
  async () => {
    const client = createImapClient();
    try {
      await client.connect();
      const mailboxes: EmailFolder[] = [];
      const listResponse = await client.list();
      for (const mailbox of listResponse) {
        mailboxes.push({ name: mailbox.name, path: mailbox.path,
                         specialUse: mailbox.specialUse, flags: Array.from(mailbox.flags) });
      }
      return { contents: [{ uri: "mailto:" + emailUser + "/folders",
                            mimeType: "application/json",
                            text: JSON.stringify(mailboxes, null, 2) }] };
    } catch (error) {
      console.error("Error listing folders:", error);
      throw error;
    } finally {
      await client.logout();
    }
  }
  \<close>
\<close>

fun folders_resource_loop :: "EmailFolder list \<Rightarrow> ListResponse list \<Rightarrow> EmailFolder list" where
  "folders_resource_loop mailboxes [] = mailboxes"
| "folders_resource_loop mailboxes (mailbox # rest) =
     folders_resource_loop
       (mailboxes @
          [\<lparr>f_name = lr_name mailbox, f_path = lr_path mailbox,
            f_specialUse = lr_specialUse mailbox, f_flags = lr_flags mailbox\<rparr>])
       rest"

definition folders_try :: "string \<Rightarrow> 's ImapFlow \<Rightarrow> ('s, ReadResourceResult) action" where
  "folders_try emailUser client =
     bind (await Connect (connect client)) (\<lambda>_.
     bind (await ListMailboxes (list client)) (\<lambda>listResponse.
     return \<lparr>contents =
               [\<lparr>uri = ''mailto:'' @ emailUser @ ''/folders'',
                 mimeType = ''application/json'',
                 rc_text = JSON_stringify (Folders (folders_resource_loop [] listResponse))\<rparr>]\<rparr>))"

definition folders_resource :: "string \<Rightarrow> 's ImapFlow \<Rightarrow> ('s, ReadResourceResult) action" where
  "folders_resource emailUser client =
     try_finally
       (try_catch (folders_try emailUser client)
          (\<lambda>err. bind (console_error ''Error listing folders:'') (\<lambda>_. throw err)))
       (await Logout (logout client))"

text \<open>
  Reading a result: the messages a tool result carries (none for an error result or a
  thrown error), and the order the inbox resource sorts by: \<open>newer a b\<close> when both
  messages are dated and \<open>a\<close>'s date is the later one.
\<close>

fun messages_of :: "content_text \<Rightarrow> EmailMessage list" where
  "messages_of (JSON_stringify (Messages ms)) = ms"
| "messages_of (JSON_stringify (Folders fs)) = []"
| "messages_of (JSON_stringify (Receipt i st)) = []"
| "messages_of (Plain str) = []"

definition returned_messages :: "error + CallToolResult \<Rightarrow> EmailMessage list" where
  "returned_messages r =
     (case r of Inl e \<Rightarrow> [] | Inr res \<Rightarrow> concat (map messages_of (content res)))"

definition newer :: "EmailMessage \<Rightarrow> EmailMessage \<Rightarrow> bool" where
  "newer a b = (case (m_date a, m_date b) of (Some x, Some y) \<Rightarrow> y < x | _ \<Rightarrow> False)"

text \<open>
  Reading a fetched message: the date of its envelope, and whether the envelope is there
  with \<^verbatim>\<open>from\<close>, \<^verbatim>\<open>to\<close> and \<^verbatim>\<open>date\<close>.
\<close>

definition fetched_date :: "FetchMessageObject \<Rightarrow> int option" where
  "fetched_date f = (case envelope f of None \<Rightarrow> None | Some env \<Rightarrow> env_date env)"

definition complete_envelope :: "FetchMessageObject \<Rightarrow> bool" where
  "complete_envelope f =
     (case envelope f of
        None \<Rightarrow> False
      | Some env \<Rightarrow> env_from env \<noteq> None \<and> env_to env \<noteq> None \<and> env_date env \<noteq> None)"

section \<open>Sample collaborators\<close>

text \<open>
  Collaborators for the examples, on a state with nothing in it: a transporter that
  delivers and one that fails; a client whose connection is refused (and whose logout
  then returns, or throws as well).
\<close>

definition delivering_transporter :: "unit Transporter" where
  "delivering_transporter = \<lparr>sendMail = (\<lambda>opts s. (Inr \<lparr>messageId = ''<1@example.org>''\<rparr>, s))\<rparr>"

definition failing_transporter :: "unit Transporter" where
  "failing_transporter = \<lparr>sendMail = (\<lambda>opts s. (Inl (Error ''connect ECONNREFUSED''), s))\<rparr>"

definition refused_client :: "(error + unit) \<Rightarrow> unit ImapFlow" where
  "refused_client logout_result =
     \<lparr>connect = (\<lambda>s. (Inl (Error ''connect ECONNREFUSED''), s)),
      mailboxOpen = (\<lambda>folder s. (Inr (), s)),
      search = (\<lambda>query by_uid s. (Inr [], s)),
      fetch = (\<lambda>r query by_uid s. (([], None), s)),
      list = (\<lambda>s. (Inr [], s)),
      logout = (\<lambda>s. (logout_result, s))\<rparr>"

text \<open>
  A client that follows a script: every call returns, the search gives \<open>uids\<close> and the
  fetch yields \<open>yielded\<close>.
\<close>

definition scripted_client :: "nat list \<Rightarrow> FetchMessageObject list \<Rightarrow> unit ImapFlow" where
  "scripted_client uids yielded =
     \<lparr>connect = (\<lambda>s. (Inr (), s)),
      mailboxOpen = (\<lambda>folder s. (Inr (), s)),
      search = (\<lambda>query by_uid s. (Inr uids, s)),
      fetch = (\<lambda>r query by_uid s. ((yielded, None), s)),
      list = (\<lambda>s. (Inr [], s)),
      logout = (\<lambda>s. (Inr (), s))\<rparr>"

definition sample_envelope :: "int \<Rightarrow> MessageEnvelopeObject" where
  "sample_envelope d =
     \<lparr>env_date = Some d, env_subject = Some ''Invoice'',
      env_from = Some [\<lparr>ma_name = Some ''Ann'', ma_address = Some ''ann@example.org''\<rparr>],
      env_to = Some [\<lparr>ma_name = None, ma_address = Some ''bob@example.org''\<rparr>]\<rparr>"

definition sample_fetched :: "nat \<Rightarrow> int \<Rightarrow> FetchMessageObject" where
  "sample_fetched n d =
     \<lparr>seq = n, uid = n, envelope = Some (sample_envelope d),
      source = Some ''Subject: Invoice'', bodyParts = Some [(''1'', ''Please find attached'')]\<rparr>"

definition sample_summary :: "nat \<Rightarrow> int \<Rightarrow> EmailMessage" where
  "sample_summary n d =
     \<lparr>m_id = n, m_subject = Some ''Invoice'',
      m_from = [\<lparr>name = Some ''Ann'', address = ''ann@example.org''\<rparr>],
      m_to = [\<lparr>name = None, address = ''bob@example.org''\<rparr>],
      m_date = Some d, m_text = None, m_html = None\<rparr>"

text \<open>Twelve messages, dated 1000 to 12000, in no particular order.\<close>

definition twelve_fetched :: "FetchMessageObject list" where
  "twelve_fetched =
     [sample_fetched 1 5000, sample_fetched 2 12000, sample_fetched 3 1000,
      sample_fetched 4 8000, sample_fetched 5 3000, sample_fetched 6 11000,
      sample_fetched 7 2000, sample_fetched 8 9000, sample_fetched 9 6000,
      sample_fetched 10 4000, sample_fetched 11 10000, sample_fetched 12 7000]"

text \<open>
  The same twelve, except that the newest one (dated 12000) was sent to hidden
  recipients only: its envelope has no \<^verbatim>\<open>to\<close>.
\<close>

definition twelve_one_without_to :: "FetchMessageObject list" where
  "twelve_one_without_to =
     [sample_fetched 1 5000,
      \<lparr>seq = 2, uid = 2,
       envelope = Some \<lparr>env_date = Some 12000, env_subject = Some ''Invoice'',
         env_from = Some [\<lparr>ma_name = Some ''Ann'', ma_address = Some ''ann@example.org''\<rparr>],
         env_to = None\<rparr>,
       source = None, bodyParts = None\<rparr>,
      sample_fetched 3 1000,
      sample_fetched 4 8000, sample_fetched 5 3000, sample_fetched 6 11000,
      sample_fetched 7 2000, sample_fetched 8 9000, sample_fetched 9 6000,
      sample_fetched 10 4000, sample_fetched 11 10000, sample_fetched 12 7000]"

definition twelve_summaries :: "EmailMessage list" where
  "twelve_summaries =
     [sample_summary 1 5000, sample_summary 2 12000, sample_summary 3 1000,
      sample_summary 4 8000, sample_summary 5 3000, sample_summary 6 11000,
      sample_summary 7 2000, sample_summary 8 9000, sample_summary 9 6000,
      sample_summary 10 4000, sample_summary 11 10000, sample_summary 12 7000]"

text \<open>
  A mailbox as the mailbox library's interface describes it. The messages of the open
  folder are numbered from 1 (the sequence numbers) and each carries its unique id.
  \<^verbatim>\<open>search(query, { uid: true })\<close> gives the unique ids of the matching messages and
  \<^verbatim>\<open>search(query)\<close> their sequence numbers. \<^verbatim>\<open>fetch(range, query, { uid: true })\<close> reads the
  numbers of its range as unique ids; \<^verbatim>\<open>fetch(range, query)\<close> reads them as sequence
  numbers. The fetched message has the envelope and the source when the query asks for
  them.
\<close>

record StoredMessage =
  sm_uid :: nat
  sm_envelope :: MessageEnvelopeObject
  sm_source :: string

definition wants :: "jsval \<Rightarrow> string \<Rightarrow> bool" where
  "wants query k = (case query of JObject kvs \<Rightarrow> get_prop kvs k = JBool True | _ \<Rightarrow> False)"

definition in_range :: "range \<Rightarrow> nat \<Rightarrow> bool" where
  "in_range r n = (case r of Numbers ns \<Rightarrow> n \<in> set ns | SeqString str \<Rightarrow> str = ''1:*'')"

definition numbered :: "StoredMessage list \<Rightarrow> (nat \<times> StoredMessage) list" where
  "numbered mailbox = zip [1..<Suc (length mailbox)] mailbox"

definition mailbox_client ::
  "(jsval \<Rightarrow> StoredMessage \<Rightarrow> bool) \<Rightarrow> StoredMessage list \<Rightarrow> unit ImapFlow" where
  "mailbox_client matches mailbox =
     \<lparr>connect = (\<lambda>s. (Inr (), s)),
      mailboxOpen = (\<lambda>folder s. (Inr (), s)),
      search = (\<lambda>query by_uid s.
        (Inr (map (\<lambda>(i, m). if by_uid then sm_uid m else i)
               (filter (\<lambda>(i, m). matches query m) (numbered mailbox))), s)),
      fetch = (\<lambda>r query by_uid s.
        ((map (\<lambda>(i, m).
                \<lparr>seq = i, uid = sm_uid m,
                 envelope = (if wants query ''envelope'' then Some (sm_envelope m) else None),
                 source = (if wants query ''source'' then Some (sm_source m) else None),
                 bodyParts = None\<rparr>)
            (filter (\<lambda>(i, m). in_range r (if by_uid then sm_uid m else i)) (numbered mailbox)),
          None), s)),
      list = (\<lambda>s. (Inr [], s)),
      logout = (\<lambda>s. (Inr (), s))\<rparr>"

definition match_all :: "jsval \<Rightarrow> StoredMessage \<Rightarrow> bool" where
  "match_all query m = True"

text \<open>A folder of two messages whose unique ids are 101 and 102.\<close>

definition two_messages :: "StoredMessage list" where
  "two_messages =
     [\<lparr>sm_uid = 101, sm_envelope = sample_envelope 1000, sm_source = ''Subject: Invoice''\<rparr>,
      \<lparr>sm_uid = 102, sm_envelope = sample_envelope 2000, sm_source = ''Subject: Invoice''\<rparr>]"

text \<open>A folder of three messages whose unique ids are 2, 3 and 5.\<close>

definition three_messages :: "StoredMessage list" where
  "three_messages =
     [\<lparr>sm_uid = 2, sm_envelope = sample_envelope 1000, sm_source = ''Subject: Invoice''\<rparr>,
      \<lparr>sm_uid = 3, sm_envelope = sample_envelope 2000, sm_source = ''Subject: Invoice''\<rparr>,
      \<lparr>sm_uid = 5, sm_envelope = sample_envelope 3000, sm_source = ''Subject: Invoice''\<rparr>]"

section \<open>Properties\<close>

subsection \<open>Number conversion\<close>

lemma toDouble_exact: "v < 2 ^ 53 \<Longrightarrow> toDouble v = Finite (of_nat v)"
  by (simp add: toDouble_def)

text \<open>
  The conversion overflows to \<^verbatim>\<open>Infinity\<close> exactly from \<open>2^1024 - 2^970\<close> on, the
  midpoint between the largest double and \<open>2^1024\<close>.
\<close>

lemma toDouble_inf_iff: "toDouble v = PosInfinity \<longleftrightarrow> 2 ^ 1024 - 2 ^ 970 \<le> v"
proof (cases "v < 2 ^ 53")
  case True
  then have "v < 2 ^ 1024 - 2 ^ 970" by simp
  with True show ?thesis by (simp add: toDouble_def)
next
  case False
  define B where "B = floorlog 2 v"
  define e where "e = B - 53"
  define X where "X = (2::nat) ^ e"
  define q where "q = v div X"
  define r where "r = v mod X"
  define h where "h = (2::nat) ^ (e - 1)"
  define q' where "q' = (if h < r \<or> (r = h \<and> odd q) then q + 1 else q)"
  have vpos: "0 < v" using False by (cases v) simp_all
  have lo: "2 ^ (B - 1) \<le> v" and hi: "v < 2 ^ B"
    using floorlog_bounds [of v 2] vpos by (simp_all add: B_def)
  have B54: "54 \<le> B"
  proof (rule ccontr)
    assume "\<not> 54 \<le> B"
    then have "B \<le> 53" by simp
    then have "(2::nat) ^ B \<le> 2 ^ 53" by (intro power_increasing) simp_all
    with hi False show False by simp
  qed
  have Be: "B = e + 53" "B - 1 = e + 52" using B54 by (simp_all add: e_def)
  have Xpos: "0 < X" by (simp add: X_def)
  have v_eq: "v = q * X + r" by (simp add: q_def r_def)
  have r_lt: "r < X" using Xpos by (simp add: r_def)
  have v_hi: "v < 2 ^ 53 * X" using hi by (simp add: Be power_add mult.commute X_def)
  have v_lo: "2 ^ 52 * X \<le> v" using lo by (simp add: Be power_add mult.commute X_def)
  have q_hi: "q < 2 ^ 53"
    using v_hi Xpos unfolding q_def by (simp add: less_mult_imp_div_less)
  have q_lo: "2 ^ 52 \<le> q"
  proof -
    have "2 ^ 52 * X div X \<le> v div X" using v_lo by (rule div_le_mono)
    then show ?thesis using Xpos by (simp add: q_def)
  qed
  have e1: "1 \<le> e" using B54 by (simp add: e_def)
  have hh: "2 * h = X" using e1 by (simp add: h_def X_def power_eq_if)
  have q'_bounds: "q \<le> q'" "q' \<le> q + 1" by (simp_all add: q'_def)
  have td: "toDouble v = (if 2 ^ 1024 \<le> q' * X then PosInfinity else Finite (of_nat (q' * X)))"
    using False by (simp add: toDouble_def Let_def B_def e_def q_def r_def h_def q'_def X_def)
  have iff1: "toDouble v = PosInfinity \<longleftrightarrow> 2 ^ 1024 \<le> q' * X"
    by (simp add: td)
  consider (small) "e \<le> 970" | (edge) "e = 971" | (large) "972 \<le> e" by linarith
  then have "2 ^ 1024 \<le> q' * X \<longleftrightarrow> 2 ^ 1024 - 2 ^ 970 \<le> v"
  proof cases
    case small
    then have "X \<le> 2 ^ 970" unfolding X_def by (intro power_increasing) simp_all
    then have le: "2 ^ 53 * X \<le> 2 ^ 53 * 2 ^ 970" by (rule mult_le_mono2)
    have n1: "(2::nat) ^ 53 * 2 ^ 970 < 2 ^ 1024 - 2 ^ 970" by simp
    have "q' * X \<le> 2 ^ 53 * X" using q'_bounds q_hi by (intro mult_le_mono1) simp
    also note le
    also note n1
    finally have a: "q' * X < 2 ^ 1024" by simp
    note v_hi
    also note le
    also note n1
    finally have b: "v < 2 ^ 1024 - 2 ^ 970" .
    from a b show ?thesis by simp
  next
    case edge
    then have X: "X = 2 ^ 971" and h: "h = 2 ^ 970" by (simp_all add: X_def h_def)
    show ?thesis
    proof
      assume a: "2 ^ 1024 \<le> q' * X"
      have "q' = 2 ^ 53"
      proof (rule ccontr)
        assume "q' \<noteq> 2 ^ 53"
        then have "q' \<le> 2 ^ 53 - 1" using q'_bounds q_hi by simp
        then have "q' * X \<le> (2 ^ 53 - 1) * X" by (rule mult_le_mono1)
        with a show False by (simp add: X)
      qed
      then have qq: "q = 2 ^ 53 - 1" and rr: "h \<le> r"
        using q_hi by (auto simp: q'_def split: if_splits)
      show "2 ^ 1024 - 2 ^ 970 \<le> v"
        using rr unfolding v_eq qq X h by simp
    next
      assume a: "2 ^ 1024 - 2 ^ 970 \<le> v"
      have "(2 ^ 53 - 1) * X \<le> v" using a by (simp add: X)
      then have "(2 ^ 53 - 1) * X div X \<le> v div X" by (rule div_le_mono)
      then have "2 ^ 53 - 1 \<le> q" using Xpos unfolding q_def by (simp del: One_nat_def)
      with q_hi have qq: "q = 2 ^ 53 - 1" by simp
      have rr: "h \<le> r" using a unfolding v_eq qq X h by simp
      have "odd q" by (simp add: qq)
      with rr have "q' = q + 1" by (auto simp: q'_def)
      then show "2 ^ 1024 \<le> q' * X" by (simp add: qq X)
    qed
  next
    case large
    then have "(2::nat) ^ 972 \<le> X" unfolding X_def by (intro power_increasing) simp_all
    then have le: "2 ^ 52 * 2 ^ 972 \<le> 2 ^ 52 * X" by (rule mult_le_mono2)
    have n1: "(2::nat) ^ 1024 \<le> 2 ^ 52 * 2 ^ 972" by simp
    have le2: "2 ^ 52 * X \<le> q' * X" using q'_bounds q_lo by (intro mult_le_mono1) simp
    note n1
    also note le
    also note le2
    finally have a: "2 ^ 1024 \<le> q' * X" .
    note n1
    also note le
    also note v_lo
    finally have "2 ^ 1024 \<le> v" .
    then have b: "2 ^ 1024 - 2 ^ 970 \<le> v" by simp
    from a b show ?thesis by simp
  qed
  with iff1 show ?thesis by simp
qed

lemma toDouble_integer_iff: "isInteger (toDouble v) \<longleftrightarrow> v < 2 ^ 1024 - 2 ^ 970"
proof -
  have "toDouble v = PosInfinity \<or> isInteger (toDouble v)"
    by (simp add: toDouble_def Let_def)
  moreover have "toDouble v = PosInfinity \<Longrightarrow> \<not> isInteger (toDouble v)"
    by simp
  ultimately show ?thesis
    using toDouble_inf_iff [of v] by (auto simp: not_le)
qed

lemma decimal_append:
  "decimal (s @ t) = foldl (\<lambda>n c. 10 * n + digit_value c) (decimal s) t"
  by (simp add: decimal_def)

lemma decimal_zeros:
  "foldl (\<lambda>n c. 10 * n + digit_value c) a (replicate k (CHR ''0'')) = a * 10 ^ k"
  by (induction k arbitrary: a) (simp_all add: digit_value_def)

lemma digits_zeros: "list_all is_digit (replicate k (CHR ''0''))"
  by (induction k) (simp_all add: is_digit_def)

lemma decimal_big_port: "decimal big_port = 10 ^ 309"
  using decimal_append [of "''1''" "replicate 309 (CHR ''0'')"]
  by (simp add: big_port_def decimal_zeros) (simp add: decimal_def digit_value_def)

lemma digits_only_big_port: "digits_only big_port"
  by (simp add: digits_only_def big_port_def digits_zeros) (simp add: is_digit_def)

lemma Number_big_port: "Number_of_digits big_port = PosInfinity"
  by (simp add: Number_of_digits_def decimal_big_port toDouble_inf_iff)

subsection \<open>Configuration resolver\<close>

lemma z_string_email_Some: "z_string_email email (Some s) = (if email s then Some s else None)"
  by (simp add: z_string_email_def)

lemma z_string_min1_Some: "z_string_min (Suc 0) (Some s) = (if s \<noteq> [] then Some s else None)"
  by (cases s) (simp_all add: z_string_min_def)

lemma z_string_digits_Some:
  "z_string_digits_Number (Some s) = (if digits_only s then Some (Number_of_digits s) else None)"
  by (simp add: z_string_digits_Number_def)

lemma parseEnv_accepts:
  assumes "penv ''EMAIL_USER'' = Some eu" "email eu"
    "penv ''EMAIL_PASSWORD'' = Some pw" "pw \<noteq> []"
    "penv ''IMAP_HOST'' = Some ih" "ih \<noteq> []"
    "penv ''IMAP_PORT'' = Some ip" "digits_only ip"
    "penv ''SMTP_HOST'' = Some sh" "sh \<noteq> []"
    "penv ''SMTP_PORT'' = Some sp" "digits_only sp"
  shows "parseEnv email penv =
    Inr \<lparr>EMAIL_USER = eu, EMAIL_PASSWORD = pw, IMAP_HOST = ih, IMAP_PORT = Number_of_digits ip,
         SMTP_HOST = sh, SMTP_PORT = Number_of_digits sp\<rparr>"
  using assms
  by (simp add: parseEnv_def z_string_email_Some z_string_min1_Some z_string_digits_Some)

lemma parseEnv_result:
  "parseEnv email penv = Inl (InvalidEnvError ''Environment validation failed:'') \<or>
   (\<exists>cfg. parseEnv email penv = Inr cfg)"
  by (simp add: parseEnv_def split: option.splits)

lemma parseEnv_Inr_D:
  assumes "parseEnv email penv = Inr cfg"
  shows "(\<exists>eu. penv ''EMAIL_USER'' = Some eu \<and> email eu) \<and>
         (\<exists>pw. penv ''EMAIL_PASSWORD'' = Some pw) \<and>
         (\<exists>ih. penv ''IMAP_HOST'' = Some ih) \<and>
         (\<exists>ip. penv ''IMAP_PORT'' = Some ip \<and> digits_only ip) \<and>
         (\<exists>sh. penv ''SMTP_HOST'' = Some sh) \<and>
         (\<exists>sp. penv ''SMTP_PORT'' = Some sp \<and> digits_only sp)"
  using assms
  by (auto simp: parseEnv_def z_string_email_def z_string_min_def z_string_digits_Number_def
      split: option.splits if_splits)

lemma parseEnv_rejects:
  assumes "penv ''EMAIL_USER'' = None \<or> penv ''EMAIL_PASSWORD'' = None \<or>
     penv ''IMAP_HOST'' = None \<or> penv ''IMAP_PORT'' = None \<or>
     penv ''SMTP_HOST'' = None \<or> penv ''SMTP_PORT'' = None \<or>
     (\<exists>eu. penv ''EMAIL_USER'' = Some eu \<and> \<not> email eu) \<or>
     (\<exists>p. penv ''IMAP_PORT'' = Some p \<and> \<not> digits_only p) \<or>
     (\<exists>p. penv ''SMTP_PORT'' = Some p \<and> \<not> digits_only p)"
  shows "parseEnv email penv = Inl (InvalidEnvError ''Environment validation failed:'')"
proof -
  have "\<not> (\<exists>cfg. parseEnv email penv = Inr cfg)"
    using assms parseEnv_Inr_D [of email penv] by auto
  then show ?thesis using parseEnv_result [of email penv] by auto
qed

text \<open>
  C8, as the claim is written, fails on a port of 310 digits: every value is present and
  well-formed, the resolver accepts, and the port is \<^verbatim>\<open>Infinity\<close>, which is not an
  integer.
\<close>

theorem parseEnv_port_not_integer:
  "digits_only big_port \<and>
   parseEnv sample_email (sample_env big_port) =
     Inr \<lparr>EMAIL_USER = ''ann@example.org'', EMAIL_PASSWORD = ''secret'',
          IMAP_HOST = ''imap.example.org'', IMAP_PORT = PosInfinity,
          SMTP_HOST = ''smtp.example.org'', SMTP_PORT = Finite 465\<rparr> \<and>
   \<not> isInteger PosInfinity"
proof -
  have "Number_of_digits ''465'' = Finite 465"
    by (simp add: Number_of_digits_def decimal_def digit_value_def toDouble_def)
  moreover have "digits_only ''465''"
    by (simp add: digits_only_def is_digit_def)
  moreover have "sample_email ''ann@example.org''"
    by (simp add: sample_email_def)
  ultimately show ?thesis
    using digits_only_big_port Number_big_port
      parseEnv_accepts [of "sample_env big_port" "''ann@example.org''" sample_email "''secret''"
        "''imap.example.org''" big_port "''smtp.example.org''" "''465''"]
    by (simp add: sample_env_def)
qed

text \<open>
  C8, amended. With all six values present and well-formed the resolver accepts, and each
  port is \<^verbatim>\<open>Number\<close> of its digits: an integer exactly when the digits denote a value
  below \<open>2^1024 - 2^970\<close>, \<^verbatim>\<open>Infinity\<close> from there on, and the very integer they denote
  below \<open>2^53\<close>. With a
  required value missing, an account address the email pattern refuses, or a port that
  is not digits only, the resolver throws the \<^verbatim>\<open>InvalidEnvError\<close> and the process serves
  no operation.
\<close>

theorem parseEnv_resolves:
  "(penv ''EMAIL_USER'' = Some eu \<and> email eu \<and>
    penv ''EMAIL_PASSWORD'' = Some pw \<and> pw \<noteq> [] \<and>
    penv ''IMAP_HOST'' = Some ih \<and> ih \<noteq> [] \<and>
    penv ''IMAP_PORT'' = Some ip \<and> digits_only ip \<and>
    penv ''SMTP_HOST'' = Some sh \<and> sh \<noteq> [] \<and>
    penv ''SMTP_PORT'' = Some sp \<and> digits_only sp \<longrightarrow>
      parseEnv email penv =
        Inr \<lparr>EMAIL_USER = eu, EMAIL_PASSWORD = pw, IMAP_HOST = ih,
             IMAP_PORT = Number_of_digits ip, SMTP_HOST = sh, SMTP_PORT = Number_of_digits sp\<rparr> \<and>
      (isInteger (Number_of_digits ip) \<longleftrightarrow> decimal ip < 2 ^ 1024 - 2 ^ 970) \<and>
      (isInteger (Number_of_digits sp) \<longleftrightarrow> decimal sp < 2 ^ 1024 - 2 ^ 970) \<and>
      (Number_of_digits ip = PosInfinity \<longleftrightarrow> 2 ^ 1024 - 2 ^ 970 \<le> decimal ip) \<and>
      (Number_of_digits sp = PosInfinity \<longleftrightarrow> 2 ^ 1024 - 2 ^ 970 \<le> decimal sp) \<and>
      (decimal ip < 2 ^ 53 \<longrightarrow> Number_of_digits ip = Finite (of_nat (decimal ip))) \<and>
      (decimal sp < 2 ^ 53 \<longrightarrow> Number_of_digits sp = Finite (of_nat (decimal sp)))) \<and>
   (penv ''EMAIL_USER'' = None \<or> penv ''EMAIL_PASSWORD'' = None \<or>
    penv ''IMAP_HOST'' = None \<or> penv ''IMAP_PORT'' = None \<or>
    penv ''SMTP_HOST'' = None \<or> penv ''SMTP_PORT'' = None \<or>
    (\<exists>eu. penv ''EMAIL_USER'' = Some eu \<and> \<not> email eu) \<or>
    (\<exists>p. penv ''IMAP_PORT'' = Some p \<and> \<not> digits_only p) \<or>
    (\<exists>p. penv ''SMTP_PORT'' = Some p \<and> \<not> digits_only p) \<longrightarrow>
      parseEnv email penv = Inl (InvalidEnvError ''Environment validation failed:'') \<and>
      err_name (InvalidEnvError ''Environment validation failed:'') = ''InvalidEnvError'' \<and>
      startup email penv = Exited (InvalidEnvError ''Environment validation failed:'') \<and>
      served (startup email penv) = [])"
proof (intro conjI impI)
  assume a: "penv ''EMAIL_USER'' = Some eu \<and> email eu \<and>
    penv ''EMAIL_PASSWORD'' = Some pw \<and> pw \<noteq> [] \<and>
    penv ''IMAP_HOST'' = Some ih \<and> ih \<noteq> [] \<and>
    penv ''IMAP_PORT'' = Some ip \<and> digits_only ip \<and>
    penv ''SMTP_HOST'' = Some sh \<and> sh \<noteq> [] \<and>
    penv ''SMTP_PORT'' = Some sp \<and> digits_only sp"
  then show "parseEnv email penv =
        Inr \<lparr>EMAIL_USER = eu, EMAIL_PASSWORD = pw, IMAP_HOST = ih,
             IMAP_PORT = Number_of_digits ip, SMTP_HOST = sh, SMTP_PORT = Number_of_digits sp\<rparr>"
    by (intro parseEnv_accepts) simp_all
  show "isInteger (Number_of_digits ip) \<longleftrightarrow> decimal ip < 2 ^ 1024 - 2 ^ 970"
    by (simp only: Number_of_digits_def toDouble_integer_iff)
  show "isInteger (Number_of_digits sp) \<longleftrightarrow> decimal sp < 2 ^ 1024 - 2 ^ 970"
    by (simp only: Number_of_digits_def toDouble_integer_iff)
  show "Number_of_digits ip = PosInfinity \<longleftrightarrow> 2 ^ 1024 - 2 ^ 970 \<le> decimal ip"
    by (simp only: Number_of_digits_def toDouble_inf_iff)
  show "Number_of_digits sp = PosInfinity \<longleftrightarrow> 2 ^ 1024 - 2 ^ 970 \<le> decimal sp"
    by (simp only: Number_of_digits_def toDouble_inf_iff)
  show "decimal ip < 2 ^ 53 \<Longrightarrow> Number_of_digits ip = Finite (of_nat (decimal ip))"
    by (simp only: Number_of_digits_def toDouble_exact)
  show "decimal sp < 2 ^ 53 \<Longrightarrow> Number_of_digits sp = Finite (of_nat (decimal sp))"
    by (simp only: Number_of_digits_def toDouble_exact)
next
  assume "penv ''EMAIL_USER'' = None \<or> penv ''EMAIL_PASSWORD'' = None \<or>
    penv ''IMAP_HOST'' = None \<or> penv ''IMAP_PORT'' = None \<or>
    penv ''SMTP_HOST'' = None \<or> penv ''SMTP_PORT'' = None \<or>
    (\<exists>eu. penv ''EMAIL_USER'' = Some eu \<and> \<not> email eu) \<or>
    (\<exists>p. penv ''IMAP_PORT'' = Some p \<and> \<not> digits_only p) \<or>
    (\<exists>p. penv ''SMTP_PORT'' = Some p \<and> \<not> digits_only p)"
  then have r: "parseEnv email penv = Inl (InvalidEnvError ''Environment validation failed:'')"
    by (rule parseEnv_rejects)
  show "parseEnv email penv = Inl (InvalidEnvError ''Environment validation failed:'')"
    by (rule r)
  show "err_name (InvalidEnvError ''Environment validation failed:'') = ''InvalidEnvError''"
    by (simp add: InvalidEnvError_def)
  show "startup email penv = Exited (InvalidEnvError ''Environment validation failed:'')"
    by (simp add: startup_def r)
  show "served (startup email penv) = []"
    by (simp add: startup_def r)
qed

theorem parseEnv_resolves_witness:
  "parseEnv sample_email (sample_env ''993'') =
     Inr \<lparr>EMAIL_USER = ''ann@example.org'', EMAIL_PASSWORD = ''secret'',
          IMAP_HOST = ''imap.example.org'', IMAP_PORT = Finite 993,
          SMTP_HOST = ''smtp.example.org'', SMTP_PORT = Finite 465\<rparr> \<and>
   isInteger (Number_of_digits ''993'') \<and>
   parseEnv sample_email (sample_env ''99a'') =
     Inl (InvalidEnvError ''Environment validation failed:'') \<and>
   served (startup sample_email (sample_env ''99a'')) = [] \<and>
   parseEnv sample_email ((sample_env ''993'')(''SMTP_HOST'' := None)) =
     Inl (InvalidEnvError ''Environment validation failed:'') \<and>
   served (startup sample_email ((sample_env ''993'')(''SMTP_HOST'' := None))) = []"
proof -
  have d: "decimal ''993'' = 993" "decimal ''465'' = 465"
    by (simp_all add: decimal_def digit_value_def)
  have ok: "sample_env ''993'' ''EMAIL_USER'' = Some ''ann@example.org'' \<and>
      sample_email ''ann@example.org'' \<and>
      sample_env ''993'' ''EMAIL_PASSWORD'' = Some ''secret'' \<and> ''secret'' \<noteq> [] \<and>
      sample_env ''993'' ''IMAP_HOST'' = Some ''imap.example.org'' \<and> ''imap.example.org'' \<noteq> [] \<and>
      sample_env ''993'' ''IMAP_PORT'' = Some ''993'' \<and> digits_only ''993'' \<and>
      sample_env ''993'' ''SMTP_HOST'' = Some ''smtp.example.org'' \<and> ''smtp.example.org'' \<noteq> [] \<and>
      sample_env ''993'' ''SMTP_PORT'' = Some ''465'' \<and> digits_only ''465''"
    by (simp add: sample_env_def sample_email_def digits_only_def is_digit_def)
  have bad: "\<exists>p. sample_env ''99a'' ''IMAP_PORT'' = Some p \<and> \<not> digits_only p"
    by (simp add: sample_env_def digits_only_def is_digit_def)
  have gone: "((sample_env ''993'')(''SMTP_HOST'' := None)) ''SMTP_HOST'' = None"
    by simp
  note acc = parseEnv_resolves [of "sample_env ''993''" "''ann@example.org''" sample_email
      "''secret''" "''imap.example.org''" "''993''" "''smtp.example.org''" "''465''",
      THEN conjunct1, rule_format, OF ok]
  note rej1 = parseEnv_resolves [of "sample_env ''99a''" _ sample_email,
      THEN conjunct2, rule_format]
  note rej2 = parseEnv_resolves [of "(sample_env ''993'')(''SMTP_HOST'' := None)" _ sample_email,
      THEN conjunct2, rule_format]
  have r1: "parseEnv sample_email (sample_env ''99a'') =
      Inl (InvalidEnvError ''Environment validation failed:'') \<and>
      served (startup sample_email (sample_env ''99a'')) = []"
    using rej1 bad by blast
  have r2: "parseEnv sample_email ((sample_env ''993'')(''SMTP_HOST'' := None)) =
      Inl (InvalidEnvError ''Environment validation failed:'') \<and>
      served (startup sample_email ((sample_env ''993'')(''SMTP_HOST'' := None))) = []"
    using rej2 gone by blast
  have a1: "Number_of_digits ''993'' = Finite 993" "Number_of_digits ''465'' = Finite 465"
    using acc by (simp_all add: d)
  have a2: "isInteger (Number_of_digits ''993'')"
    using acc by (simp add: d)
  show ?thesis
    using acc r1 r2 a1 a2 by simp
qed

subsection \<open>Query schema\<close>

lemma those_None_iff: "those xs = None \<longleftrightarrow> None \<in> set xs"
  by (induction xs) (auto split: option.splits)

lemma zObject_accepts_iff:
  "zObject shape (JObject kvs) \<noteq> None \<longleftrightarrow> list_all (\<lambda>(k, p). p (get_prop kvs k) \<noteq> None) shape"
proof -
  have "those (map (\<lambda>(k, p). map_option (Pair k) (p (get_prop kvs k))) shape) \<noteq> None
      \<longleftrightarrow> list_all (\<lambda>(k, p). p (get_prop kvs k) \<noteq> None) shape"
    by (induction shape) (auto split: option.splits)
  then show ?thesis
    by (auto simp: zObject_def split: option.splits)
qed

lemma zObject_result:
  "zObject shape v = Some w \<Longrightarrow> \<exists>kvs q. v = JObject kvs \<and> w = JObject q"
  by (auto simp: zObject_def split: jsval.splits option.splits)

lemma zOptional_undefined: "\<exists>y. zOptional p JUndefined = Some y"
  by (simp add: zOptional_def)

lemma subject_schema:
  "(\<exists>y. zMin (Suc 0) zString v = Some y) \<longleftrightarrow> (\<exists>s. v = JString s \<and> s \<noteq> [])"
  by (cases v) (auto simp: zMin_def zString_def Suc_le_eq)

lemma searchQuery_accepts:
  assumes "get_prop kvs ''subject'' = JString s" "s \<noteq> []"
    "\<forall>k \<in> set optionalKeys. get_prop kvs k = JUndefined"
  shows "searchQuerySchema (JObject kvs) \<noteq> None"
  unfolding searchQuerySchema_def zObject_accepts_iff
  using assms
  by (simp add: searchQueryShape_def optionalKeys_def zOptional_undefined subject_schema)

lemma searchQuery_needs_subject:
  assumes "searchQuerySchema (JObject kvs) \<noteq> None"
  shows "\<exists>s. get_prop kvs ''subject'' = JString s \<and> s \<noteq> []"
  using assms unfolding searchQuerySchema_def zObject_accepts_iff
  by (simp add: searchQueryShape_def subject_schema)

text \<open>
  C3, as the claim is written, fails on the empty query: \<^verbatim>\<open>subject\<close> is declared
  \<^verbatim>\<open>z.string().min(1)\<close> with no \<^verbatim>\<open>.optional()\<close>, so the schema refuses a query that has
  none.
\<close>

theorem searchQuery_empty_rejected: "searchQuerySchema (JObject []) = None"
  by (simp add: searchQuerySchema_def zObject_def searchQueryShape_def get_prop_def
      zOptional_def zMin_def zString_def)

text \<open>
  C3, amended. Every leaf field of the query other than \<^verbatim>\<open>subject\<close> is optional: a query
  whose subject is a non-empty string and whose other fields are all absent is accepted;
  a query with no subject is rejected.
\<close>

theorem searchQuery_optional_fields:
  "(get_prop kvs ''subject'' = JString s \<and> s \<noteq> [] \<and>
    (\<forall>k \<in> set optionalKeys. get_prop kvs k = JUndefined) \<longrightarrow>
      searchQuerySchema (JObject kvs) \<noteq> None) \<and>
   (get_prop kvs ''subject'' = JUndefined \<longrightarrow> searchQuerySchema (JObject kvs) = None)"
proof (intro conjI impI)
  assume "get_prop kvs ''subject'' = JString s \<and> s \<noteq> [] \<and>
    (\<forall>k \<in> set optionalKeys. get_prop kvs k = JUndefined)"
  then show "searchQuerySchema (JObject kvs) \<noteq> None"
    by (intro searchQuery_accepts [of kvs s]) simp_all
next
  assume u: "get_prop kvs ''subject'' = JUndefined"
  show "searchQuerySchema (JObject kvs) = None"
  proof (rule ccontr)
    assume "searchQuerySchema (JObject kvs) \<noteq> None"
    then have "\<exists>s. get_prop kvs ''subject'' = JString s \<and> s \<noteq> []"
      by (rule searchQuery_needs_subject)
    with u show False by simp
  qed
qed

theorem searchQuery_optional_fields_witness:
  "searchQuerySchema (JObject [(''subject'', JString ''invoice'')]) \<noteq> None \<and>
   searchQuerySchema (JObject [(''seen'', JBool False)]) = None"
proof -
  have a: "get_prop [(''subject'', JString ''invoice'')] ''subject'' = JString ''invoice'' \<and>
      ''invoice'' \<noteq> [] \<and>
      (\<forall>k \<in> set optionalKeys. get_prop [(''subject'', JString ''invoice'')] k = JUndefined)"
    by (simp add: get_prop_def optionalKeys_def)
  have b: "get_prop [(''seen'', JBool False)] ''subject'' = JUndefined"
    by (simp add: get_prop_def)
  note acc = searchQuery_optional_fields [of "[(''subject'', JString ''invoice'')]" "''invoice''",
      THEN conjunct1, rule_format, OF a]
  note rej = searchQuery_optional_fields [of "[(''seen'', JBool False)]",
      THEN conjunct2, rule_format, OF b]
  from acc rej show ?thesis by (rule conjI)
qed

subsection \<open>Calls a handler makes\<close>

lemma emits_return: "emits (return a) P"
  by (simp add: emits_def return_def)

lemma emits_throw: "emits (throw e) P"
  by (simp add: emits_def throw_def)

lemma emits_lift: "emits (lift r) P"
  by (simp add: emits_def lift_def)

lemma emits_await: "P ev \<Longrightarrow> emits (await ev call) P"
  by (simp add: emits_def await_def split: prod.splits)

lemma emits_console_error: "P (ConsoleError msg) \<Longrightarrow> emits (console_error msg) P"
  by (simp add: emits_def console_error_def)

lemma emits_for_await_fetch: "P (Fetch r q u) \<Longrightarrow> emits (for_await_fetch client r q u) P"
  by (simp add: emits_def for_await_fetch_def split: prod.splits)

lemma emits_bind:
  assumes "emits m P" "\<And>a. emits (k a) P"
  shows "emits (bind m k) P"
  unfolding emits_def
proof (intro allI)
  fix s tr
  obtain r s1 tr1 where m: "m (s, tr) = (r, (s1, tr1))" by (metis prod.exhaust)
  from assms(1) obtain evs where e1: "tr1 = tr @ evs" "list_all P evs"
    unfolding emits_def using m by (metis snd_conv)
  show "\<exists>evs. snd (snd (bind m k (s, tr))) = tr @ evs \<and> list_all P evs"
  proof (cases r)
    case (Inl e)
    then show ?thesis using m e1 by (simp add: bind_def)
  next
    case (Inr a)
    from assms(2) [of a] obtain evs2 where
      e2: "snd (snd (k a (s1, tr1))) = tr1 @ evs2" "list_all P evs2"
      unfolding emits_def by blast
    have "snd (snd (bind m k (s, tr))) = tr @ (evs @ evs2)"
      using Inr m e1 e2 by (simp add: bind_def)
    moreover have "list_all P (evs @ evs2)" using e1 e2 by simp
    ultimately show ?thesis by blast
  qed
qed

lemma emits_try_catch:
  assumes "emits m P" "\<And>e. emits (h e) P"
  shows "emits (try_catch m h) P"
  unfolding emits_def
proof (intro allI)
  fix s tr
  obtain r s1 tr1 where m: "m (s, tr) = (r, (s1, tr1))" by (metis prod.exhaust)
  from assms(1) obtain evs where e1: "tr1 = tr @ evs" "list_all P evs"
    unfolding emits_def using m by (metis snd_conv)
  show "\<exists>evs. snd (snd (try_catch m h (s, tr))) = tr @ evs \<and> list_all P evs"
  proof (cases r)
    case (Inr a)
    then show ?thesis using m e1 by (simp add: try_catch_def)
  next
    case (Inl e)
    from assms(2) [of e] obtain evs2 where
      e2: "snd (snd (h e (s1, tr1))) = tr1 @ evs2" "list_all P evs2"
      unfolding emits_def by blast
    have "snd (snd (try_catch m h (s, tr))) = tr @ (evs @ evs2)"
      using Inl m e1 e2 by (simp add: try_catch_def)
    moreover have "list_all P (evs @ evs2)" using e1 e2 by simp
    ultimately show ?thesis by blast
  qed
qed

text \<open>A block closed by \<open>finally { await client.logout() }\<close> logs out once, at its end.\<close>

lemma finally_logout_once:
  assumes "emits m (\<lambda>ev. ev \<noteq> Logout)"
  shows "count_list (trace (try_finally m (await Logout f)) s) Logout = 1 \<and>
         last (trace (try_finally m (await Logout f)) s) = Logout"
proof -
  obtain r s1 tr1 where m: "m (s, []) = (r, (s1, tr1))" by (metis prod.exhaust)
  from assms obtain evs where "tr1 = [] @ evs" "list_all (\<lambda>ev. ev \<noteq> Logout) evs"
    unfolding emits_def using m by (metis snd_conv)
  then have quiet: "Logout \<notin> set tr1" by (auto simp: list_all_iff)
  have "trace (try_finally m (await Logout f)) s = tr1 @ [Logout]"
    using m by (simp add: trace_def try_finally_def await_def split: prod.splits sum.splits)
  then show ?thesis using quiet by (simp add: count_list_0_iff)
qed

subsection \<open>Connection release\<close>

lemma search_emails_quiet:
  "emits (try_catch (search_emails_try client q folder limit fo)
        (\<lambda>err. bind (console_error ''Error searching emails:'') (\<lambda>_.
           return \<lparr>content = [Plain (''Error searching emails: '' @ message err)],
                   isError = Some True\<rparr>))) (\<lambda>ev. ev \<noteq> Logout)"
  unfolding search_emails_try_def Let_def
  by (intro emits_try_catch emits_bind emits_await emits_console_error emits_return)
     (auto intro: emits_for_await_fetch emits_return)

lemma list_folders_quiet:
  "emits (try_catch (list_folders_try client)
        (\<lambda>err. bind (console_error ''Error listing folders:'') (\<lambda>_.
           return \<lparr>content = [Plain (''Error listing folders: '' @ message err)],
                   isError = Some True\<rparr>))) (\<lambda>ev. ev \<noteq> Logout)"
  unfolding list_folders_try_def
  by (intro emits_try_catch emits_bind emits_await emits_console_error emits_return) simp_all

lemma inbox_quiet:
  "emits (try_catch (inbox_try u client)
        (\<lambda>err. bind (console_error ''Error reading inbox:'') (\<lambda>_. throw err)))
     (\<lambda>ev. ev \<noteq> Logout)"
  unfolding inbox_try_def Let_def
  by (intro emits_try_catch emits_bind emits_await emits_console_error emits_return
      emits_throw emits_lift emits_for_await_fetch) simp_all

lemma folders_quiet:
  "emits (try_catch (folders_try u client)
        (\<lambda>err. bind (console_error ''Error listing folders:'') (\<lambda>_. throw err)))
     (\<lambda>ev. ev \<noteq> Logout)"
  unfolding folders_try_def
  by (intro emits_try_catch emits_bind emits_await emits_console_error emits_return
      emits_throw) simp_all

lemma send_email_quiet:
  "emits (send_email u smtp to subject text html) (\<lambda>ev. ev \<noteq> Logout)"
  unfolding send_email_def Let_def
  by (intro emits_try_catch emits_bind emits_await emits_console_error emits_return) simp_all

lemma emits_trace:
  assumes "emits m P"
  shows "list_all P (trace m s)"
proof -
  from assms obtain evs where "snd (snd (m (s, []))) = [] @ evs" "list_all P evs"
    unfolding emits_def by blast
  then show ?thesis by (simp add: trace_def)
qed

lemma send_email_no_logout:
  "count_list (trace (send_email u smtp to subject txt html) s) Logout = 0"
proof -
  have "list_all (\<lambda>ev. ev \<noteq> Logout) (trace (send_email u smtp to subject txt html) s)"
    by (rule emits_trace [OF send_email_quiet])
  then show ?thesis by (auto simp: count_list_0_iff list_all_iff)
qed

lemma send_email_no_mailbox_call:
  "filter mailbox_call (trace (send_email u smtp to subject txt html) s) = []"
proof -
  have "emits (send_email u smtp to subject txt html) (\<lambda>ev. \<not> mailbox_call ev)"
    unfolding send_email_def Let_def
    by (intro emits_try_catch emits_bind emits_await emits_console_error emits_return)
      (simp_all add: mailbox_call_def)
  then have "list_all (\<lambda>ev. \<not> mailbox_call ev) (trace (send_email u smtp to subject txt html) s)"
    by (rule emits_trace)
  then show ?thesis by (auto simp: filter_empty_conv list_all_iff)
qed

text \<open>
  C2, as the claim is written, fails for \<^verbatim>\<open>send_email\<close>: that handler works on the
  shared delivery transporter, creates no mailbox client and never calls
  \<^verbatim>\<open>client.logout\<close>, whether the delivery succeeds or fails.
\<close>

theorem send_email_never_logs_out:
  "count_list
     (trace (send_email ''ann@example.org'' delivering_transporter ''bob@example.org''
        ''Hello'' ''How are you?'' None) ()) Logout = 0 \<and>
   count_list
     (trace (send_email ''ann@example.org'' failing_transporter ''bob@example.org''
        ''Hello'' ''How are you?'' None) ()) Logout = 0"
  by (simp add: trace_def send_email_def delivering_transporter_def failing_transporter_def
      try_catch_def bind_def await_def return_def console_error_def Let_def)

text \<open>
  C2, amended. Each of the four mailbox operations (\<^verbatim>\<open>search_emails\<close>, \<^verbatim>\<open>list_folders\<close>,
  the inbox resource, the folders resource) calls \<^verbatim>\<open>client.logout\<close> exactly once, as
  its last call, whatever the client does: on success, on a failure the handler turns
  into an error result, and on a failure it throws on. \<^verbatim>\<open>send_email\<close> never calls it,
  and makes no call to a mailbox client at all.
\<close>

theorem logout_exactly_once:
  "(count_list (trace (search_emails client query folder limit fetchOptions) s) Logout = 1 \<and>
    last (trace (search_emails client query folder limit fetchOptions) s) = Logout) \<and>
   (count_list (trace (list_folders client) s) Logout = 1 \<and>
    last (trace (list_folders client) s) = Logout) \<and>
   (count_list (trace (inbox_resource emailUser client) s) Logout = 1 \<and>
    last (trace (inbox_resource emailUser client) s) = Logout) \<and>
   (count_list (trace (folders_resource emailUser client) s) Logout = 1 \<and>
    last (trace (folders_resource emailUser client) s) = Logout) \<and>
   count_list (trace (send_email emailUser smtpTransporter to subject text html) s) Logout = 0 \<and>
   filter mailbox_call (trace (send_email emailUser smtpTransporter to subject text html) s) = []"
proof -
  have "count_list (trace (search_emails client query folder limit fetchOptions) s) Logout = 1 \<and>
      last (trace (search_emails client query folder limit fetchOptions) s) = Logout"
    unfolding search_emails_def by (rule finally_logout_once [OF search_emails_quiet])
  moreover have "count_list (trace (list_folders client) s) Logout = 1 \<and>
      last (trace (list_folders client) s) = Logout"
    unfolding list_folders_def by (rule finally_logout_once [OF list_folders_quiet])
  moreover have "count_list (trace (inbox_resource emailUser client) s) Logout = 1 \<and>
      last (trace (inbox_resource emailUser client) s) = Logout"
    unfolding inbox_resource_def by (rule finally_logout_once [OF inbox_quiet])
  moreover have "count_list (trace (folders_resource emailUser client) s) Logout = 1 \<and>
      last (trace (folders_resource emailUser client) s) = Logout"
    unfolding folders_resource_def by (rule finally_logout_once [OF folders_quiet])
  moreover have
    "count_list (trace (send_email emailUser smtpTransporter to subject text html) s) Logout = 0"
    by (rule send_email_no_logout)
  moreover have
    "filter mailbox_call (trace (send_email emailUser smtpTransporter to subject text html) s) = []"
    by (rule send_email_no_mailbox_call)
  ultimately show ?thesis by blast
qed

subsection \<open>Results of the handlers\<close>

lemma tool_outcome:
  "outcome (try_finally (try_catch m (\<lambda>err. bind (console_error msg) (\<lambda>_. return (h err))))
      (await Logout f)) s =
   (case fst (f (final_state m s)) of
      Inl e' \<Rightarrow> Inl e'
    | Inr x \<Rightarrow> (case outcome m s of Inl e \<Rightarrow> Inr (h e) | Inr a \<Rightarrow> Inr a))"
proof -
  obtain r s1 tr1 where m: "m (s, []) = (r, (s1, tr1))" by (metis prod.exhaust)
  obtain r2 s2 where f: "f s1 = (r2, s2)" by (cases "f s1")
  show ?thesis
    using m f
    by (cases r; cases r2)
      (simp_all add: outcome_def final_state_def try_finally_def try_catch_def bind_def
        console_error_def return_def await_def)
qed

lemma resource_outcome:
  "outcome (try_finally (try_catch m (\<lambda>err. bind (console_error msg) (\<lambda>_. throw err)))
      (await Logout f)) s =
   (case fst (f (final_state m s)) of
      Inl e' \<Rightarrow> Inl e'
    | Inr x \<Rightarrow> outcome m s)"
proof -
  obtain r s1 tr1 where m: "m (s, []) = (r, (s1, tr1))" by (metis prod.exhaust)
  obtain r2 s2 where f: "f s1 = (r2, s2)" by (cases "f s1")
  show ?thesis
    using m f
    by (cases r; cases r2)
      (simp_all add: outcome_def final_state_def try_finally_def try_catch_def bind_def
        console_error_def throw_def await_def)
qed


subsection \<open>Delivery failure\<close>

text \<open>
  C5. When \<^verbatim>\<open>sendMail\<close> throws, \<^verbatim>\<open>send_email\<close> returns (it does not throw) a result
  with the error flag set whose text is \<^verbatim>\<open>Error sending email: \<close> followed by the
  message of the error thrown.
\<close>

theorem send_email_transport_failure:
  "sendMail smtpTransporter
     \<lparr>mo_from = emailUser, mo_to = to, mo_subject = subject, mo_text = txt, mo_html = html\<rparr> s
     = (Inl e, s') \<Longrightarrow>
   outcome (send_email emailUser smtpTransporter to subject txt html) s =
     Inr \<lparr>content = [Plain (''Error sending email: '' @ message e)], isError = Some True\<rparr>"
  by (simp add: outcome_def send_email_def try_catch_def bind_def await_def return_def
      console_error_def Let_def)

theorem send_email_transport_failure_witness:
  "outcome (send_email ''ann@example.org'' failing_transporter ''bob@example.org''
        ''Hello'' ''How are you?'' None) () =
     Inr \<lparr>content = [Plain ''Error sending email: connect ECONNREFUSED''], isError = Some True\<rparr>"
proof -
  have "sendMail failing_transporter
      \<lparr>mo_from = ''ann@example.org'', mo_to = ''bob@example.org'', mo_subject = ''Hello'',
       mo_text = ''How are you?'', mo_html = None\<rparr> () =
      (Inl (Error ''connect ECONNREFUSED''), ())"
    by (simp add: failing_transporter_def)
  from send_email_transport_failure [OF this] show ?thesis
    by (simp add: Error_def)
qed


subsection \<open>Folder mapping\<close>

lemma list_folders_loop_acc:
  "list_folders_loop acc r =
     acc @ map (\<lambda>mailbox. \<lparr>f_name = lr_name mailbox, f_path = lr_path mailbox,
        f_specialUse = lr_specialUse mailbox, f_flags = lr_flags mailbox\<rparr>) r"
  by (induction r arbitrary: acc) simp_all

lemma folders_resource_loop_acc:
  "folders_resource_loop acc r =
     acc @ map (\<lambda>mailbox. \<lparr>f_name = lr_name mailbox, f_path = lr_path mailbox,
        f_specialUse = lr_specialUse mailbox, f_flags = lr_flags mailbox\<rparr>) r"
  by (induction r arbitrary: acc) simp_all

lemma folders_try_outcome:
  "outcome (folders_try u client) s =
     (case fst (connect client s) of Inl e \<Rightarrow> Inl e
      | Inr x \<Rightarrow> (case fst (list client (snd (connect client s))) of Inl e \<Rightarrow> Inl e
         | Inr r \<Rightarrow> Inr \<lparr>contents = [\<lparr>uri = ''mailto:'' @ u @ ''/folders'',
                 mimeType = ''application/json'',
                 rc_text = JSON_stringify (Folders (folders_resource_loop [] r))\<rparr>]\<rparr>))"
  by (auto simp: outcome_def folders_try_def bind_def await_def return_def
      split: prod.splits sum.splits)

lemma list_folders_try_outcome:
  "outcome (list_folders_try client) s =
     (case fst (connect client s) of Inl e \<Rightarrow> Inl e
      | Inr x \<Rightarrow> (case fst (list client (snd (connect client s))) of Inl e \<Rightarrow> Inl e
         | Inr r \<Rightarrow> Inr \<lparr>content = [JSON_stringify (Folders (list_folders_loop [] r))],
             isError = None\<rparr>))"
  by (auto simp: outcome_def list_folders_try_def bind_def await_def return_def
      split: prod.splits sum.splits)

lemma folders_final_state:
  "final_state (folders_try u client) s = final_state (list_folders_try client) s"
  by (auto simp: final_state_def folders_try_def list_folders_try_def bind_def await_def return_def
      split: prod.splits sum.splits)


text \<open>
  C10. The loop of \<^verbatim>\<open>list_folders\<close> and the loop of the folders resource give the same
  folders for every list response: name, path, special use and flags of each mailbox, in
  the order of the response. Run with the same client from the same state, the tool
  returns a folder array exactly when the resource returns that array.
\<close>

theorem folder_mapping_agrees:
  "list_folders_loop [] listResponse = folders_resource_loop [] listResponse \<and>
   map f_name (list_folders_loop [] listResponse) = map lr_name listResponse \<and>
   map f_path (list_folders_loop [] listResponse) = map lr_path listResponse \<and>
   map f_specialUse (list_folders_loop [] listResponse) = map lr_specialUse listResponse \<and>
   map f_flags (list_folders_loop [] listResponse) = map lr_flags listResponse \<and>
   (outcome (list_folders client) s =
      Inr \<lparr>content = [JSON_stringify (Folders folders)], isError = None\<rparr>)
   = (outcome (folders_resource emailUser client) s =
      Inr \<lparr>contents = [\<lparr>uri = ''mailto:'' @ emailUser @ ''/folders'',
                        mimeType = ''application/json'',
                        rc_text = JSON_stringify (Folders folders)\<rparr>]\<rparr>)"
proof -
  have agree: "list_folders_loop [] listResponse = folders_resource_loop [] listResponse"
    by (simp add: list_folders_loop_acc folders_resource_loop_acc)
  have fields: "map f_name (list_folders_loop [] listResponse) = map lr_name listResponse"
    "map f_path (list_folders_loop [] listResponse) = map lr_path listResponse"
    "map f_specialUse (list_folders_loop [] listResponse) = map lr_specialUse listResponse"
    "map f_flags (list_folders_loop [] listResponse) = map lr_flags listResponse"
    by (simp_all add: list_folders_loop_acc comp_def)
  have same: "\<And>r. list_folders_loop [] r = folders_resource_loop [] r"
    by (simp add: list_folders_loop_acc folders_resource_loop_acc)
  have handlers: "(outcome (list_folders client) s =
      Inr \<lparr>content = [JSON_stringify (Folders folders)], isError = None\<rparr>)
   = (outcome (folders_resource emailUser client) s =
      Inr \<lparr>contents = [\<lparr>uri = ''mailto:'' @ emailUser @ ''/folders'',
                        mimeType = ''application/json'',
                        rc_text = JSON_stringify (Folders folders)\<rparr>]\<rparr>)"
    unfolding list_folders_def folders_resource_def tool_outcome resource_outcome
      folders_final_state list_folders_try_outcome folders_try_outcome
    by (auto simp: same split: sum.splits)
  from agree fields handlers show ?thesis by blast
qed

subsection \<open>Failure in a resource\<close>

lemma inbox_try_connect_fails:
  "fst (connect client s) = Inl e \<Longrightarrow> outcome (inbox_try u client) s = Inl e"
  by (auto simp: outcome_def inbox_try_def bind_def await_def split: prod.splits sum.splits)

lemma folders_try_connect_fails:
  "fst (connect client s) = Inl e \<Longrightarrow> outcome (folders_try u client) s = Inl e"
  by (simp add: folders_try_outcome)

text \<open>
  What the handlers do when their \<^verbatim>\<open>try\<close> block throws, for every client. With a
  \<^verbatim>\<open>client.logout\<close> that returns, a resource throws the error it caught and a tool
  returns a result with the error flag set. The \<^verbatim>\<open>finally\<close> block has nothing around
  \<^verbatim>\<open>await client.logout()\<close>, so an error of the logout takes the place of both.
  \<^verbatim>\<open>client.logout\<close> is called once either way, and a failed connect makes the
  \<^verbatim>\<open>try\<close> blocks throw.
\<close>

lemma resources_rethrow:
  "(outcome (inbox_try emailUser client) s = Inl e \<longrightarrow>
      outcome (inbox_resource emailUser client) s =
        Inl (case fst (logout client (final_state (inbox_try emailUser client) s)) of
               Inl e' \<Rightarrow> e' | Inr x \<Rightarrow> e) \<and>
      count_list (trace (inbox_resource emailUser client) s) Logout = 1) \<and>
   (outcome (folders_try emailUser client) s = Inl e \<longrightarrow>
      outcome (folders_resource emailUser client) s =
        Inl (case fst (logout client (final_state (folders_try emailUser client) s)) of
               Inl e' \<Rightarrow> e' | Inr x \<Rightarrow> e) \<and>
      count_list (trace (folders_resource emailUser client) s) Logout = 1) \<and>
   (fst (connect client s) = Inl e \<longrightarrow>
      outcome (inbox_try emailUser client) s = Inl e \<and>
      outcome (folders_try emailUser client) s = Inl e) \<and>
   (outcome (list_folders_try client) s = Inl e \<longrightarrow>
      outcome (list_folders client) s =
        (case fst (logout client (final_state (list_folders_try client) s)) of
           Inl e' \<Rightarrow> Inl e'
         | Inr x \<Rightarrow> Inr \<lparr>content = [Plain (''Error listing folders: '' @ message e)],
                         isError = Some True\<rparr>)) \<and>
   (outcome (search_emails_try client query folder limit fetchOptions) s = Inl e \<longrightarrow>
      outcome (search_emails client query folder limit fetchOptions) s =
        (case fst (logout client
              (final_state (search_emails_try client query folder limit fetchOptions) s)) of
           Inl e' \<Rightarrow> Inl e'
         | Inr x \<Rightarrow> Inr \<lparr>content = [Plain (''Error searching emails: '' @ message e)],
                         isError = Some True\<rparr>))"
proof (intro conjI impI)
  assume a: "outcome (inbox_try emailUser client) s = Inl e"
  show "outcome (inbox_resource emailUser client) s =
        Inl (case fst (logout client (final_state (inbox_try emailUser client) s)) of
               Inl e' \<Rightarrow> e' | Inr x \<Rightarrow> e)"
    unfolding inbox_resource_def resource_outcome by (simp add: a split: sum.splits)
  show "count_list (trace (inbox_resource emailUser client) s) Logout = 1"
    unfolding inbox_resource_def by (rule finally_logout_once [OF inbox_quiet, THEN conjunct1])
next
  assume a: "outcome (folders_try emailUser client) s = Inl e"
  show "outcome (folders_resource emailUser client) s =
        Inl (case fst (logout client (final_state (folders_try emailUser client) s)) of
               Inl e' \<Rightarrow> e' | Inr x \<Rightarrow> e)"
    unfolding folders_resource_def resource_outcome by (simp add: a split: sum.splits)
  show "count_list (trace (folders_resource emailUser client) s) Logout = 1"
    unfolding folders_resource_def by (rule finally_logout_once [OF folders_quiet, THEN conjunct1])
next
  assume a: "fst (connect client s) = Inl e"
  show "outcome (inbox_try emailUser client) s = Inl e"
    using a by (rule inbox_try_connect_fails)
  show "outcome (folders_try emailUser client) s = Inl e"
    using a by (rule folders_try_connect_fails)
next
  assume a: "outcome (list_folders_try client) s = Inl e"
  show "outcome (list_folders client) s =
        (case fst (logout client (final_state (list_folders_try client) s)) of
           Inl e' \<Rightarrow> Inl e'
         | Inr x \<Rightarrow> Inr \<lparr>content = [Plain (''Error listing folders: '' @ message e)],
                         isError = Some True\<rparr>)"
    unfolding list_folders_def tool_outcome by (simp add: a split: sum.splits)
next
  assume a: "outcome (search_emails_try client query folder limit fetchOptions) s = Inl e"
  show "outcome (search_emails client query folder limit fetchOptions) s =
        (case fst (logout client
              (final_state (search_emails_try client query folder limit fetchOptions) s)) of
           Inl e' \<Rightarrow> Inl e'
         | Inr x \<Rightarrow> Inr \<lparr>content = [Plain (''Error searching emails: '' @ message e)],
                         isError = Some True\<rparr>)"
    unfolding search_emails_def tool_outcome by (simp add: a split: sum.splits)
qed


lemma resources_rethrow_example:
  "outcome (inbox_resource ''ann@example.org'' (refused_client (Inr ()))) () =
     Inl (Error ''connect ECONNREFUSED'') \<and>
   count_list (trace (inbox_resource ''ann@example.org'' (refused_client (Inr ()))) ()) Logout = 1 \<and>
   outcome (folders_resource ''ann@example.org'' (refused_client (Inr ()))) () =
     Inl (Error ''connect ECONNREFUSED'') \<and>
   count_list (trace (folders_resource ''ann@example.org'' (refused_client (Inr ()))) ()) Logout = 1 \<and>
   outcome (inbox_resource ''ann@example.org''
       (refused_client (Inl (Error ''Connection not available'')))) () =
     Inl (Error ''Connection not available'') \<and>
   outcome (list_folders (refused_client (Inr ()))) () =
     Inr \<lparr>content = [Plain ''Error listing folders: connect ECONNREFUSED''],
          isError = Some True\<rparr> \<and>
   outcome (search_emails (refused_client (Inr ())) (JObject [(''subject'', JString ''invoice'')])
       ''INBOX'' 10 (JObject [(''envelope'', JBool True)])) () =
     Inr \<lparr>content = [Plain ''Error searching emails: connect ECONNREFUSED''],
          isError = Some True\<rparr>"
proof -
  let ?e = "Error ''connect ECONNREFUSED''"
  let ?q = "JObject [(''subject'', JString ''invoice'')]"
  let ?fo = "JObject [(''envelope'', JBool True)]"
  have c: "fst (connect (refused_client r) ()) = Inl ?e" for r
    by (simp add: refused_client_def)
  have l: "fst (logout (refused_client r) st) = r" for r st
    by (simp add: refused_client_def)
  note t1 = resources_rethrow [of "''ann@example.org''" "refused_client (Inr ())" "()" ?e ?q
      "''INBOX''" 10 ?fo]
  note t2 = resources_rethrow [of "''ann@example.org''"
      "refused_client (Inl (Error ''Connection not available''))" "()" ?e ?q "''INBOX''" 10 ?fo]
  have tries1: "outcome (inbox_try ''ann@example.org'' (refused_client (Inr ()))) () = Inl ?e"
      "outcome (folders_try ''ann@example.org'' (refused_client (Inr ()))) () = Inl ?e"
    using t1 c by blast+
  have tries2: "outcome (inbox_try ''ann@example.org''
        (refused_client (Inl (Error ''Connection not available'')))) () = Inl ?e"
    using t2 c by blast
  have tools: "outcome (list_folders_try (refused_client (Inr ()))) () = Inl ?e"
      "outcome (search_emails_try (refused_client (Inr ())) ?q ''INBOX'' 10 ?fo) () = Inl ?e"
    by (simp_all add: outcome_def list_folders_try_def search_emails_try_def bind_def await_def
        refused_client_def)
  have "outcome (inbox_resource ''ann@example.org'' (refused_client (Inr ()))) () = Inl ?e"
      "count_list (trace (inbox_resource ''ann@example.org'' (refused_client (Inr ()))) ()) Logout = 1"
    using t1 tries1 by (simp_all add: l)
  moreover have "outcome (folders_resource ''ann@example.org'' (refused_client (Inr ()))) () = Inl ?e"
      "count_list (trace (folders_resource ''ann@example.org'' (refused_client (Inr ()))) ()) Logout = 1"
    using t1 tries1 by (simp_all add: l)
  moreover have "outcome (inbox_resource ''ann@example.org''
       (refused_client (Inl (Error ''Connection not available'')))) () =
     Inl (Error ''Connection not available'')"
    using t2 tries2 by (simp add: l)
  moreover have "outcome (list_folders (refused_client (Inr ()))) () =
     Inr \<lparr>content = [Plain ''Error listing folders: connect ECONNREFUSED''],
          isError = Some True\<rparr>"
    using t1 tools by (simp add: l Error_def)
  moreover have "outcome (search_emails (refused_client (Inr ())) ?q ''INBOX'' 10 ?fo) () =
     Inr \<lparr>content = [Plain ''Error searching emails: connect ECONNREFUSED''],
          isError = Some True\<rparr>"
    using t1 tools by (simp add: l Error_def)
  ultimately show ?thesis by blast
qed

text \<open>
  C6 does not hold of the code. The claim: when the transport fails in the inbox
  resource or the folders resource, the error is raised again to the host, where a tool
  returns a result with the error flag set, and the connection is still released. On a
  client whose connect is refused and whose logout then throws (the connection is not
  there), each resource catches the error of the connect and throws it on, the logout
  in the \<^verbatim>\<open>finally\<close> block throws, and the host receives the error of the logout: the
  error of the transport is lost. The tools \<^verbatim>\<open>list_folders\<close> and \<^verbatim>\<open>search_emails\<close> build
  their error result and throw the error of the logout as well, so the tools and the
  resources do not differ there. The logout is called once, after the error is logged.
\<close>

theorem resources_logout_error_wins:
  "outcome (inbox_try ''ann@example.org''
       (refused_client (Inl (Error ''Connection not available'')))) () =
     Inl (Error ''connect ECONNREFUSED'') \<and>
   outcome (inbox_resource ''ann@example.org''
       (refused_client (Inl (Error ''Connection not available'')))) () =
     Inl (Error ''Connection not available'') \<and>
   trace (inbox_resource ''ann@example.org''
       (refused_client (Inl (Error ''Connection not available'')))) () =
     [Connect, ConsoleError ''Error reading inbox:'', Logout] \<and>
   outcome (folders_resource ''ann@example.org''
       (refused_client (Inl (Error ''Connection not available'')))) () =
     Inl (Error ''Connection not available'') \<and>
   trace (folders_resource ''ann@example.org''
       (refused_client (Inl (Error ''Connection not available'')))) () =
     [Connect, ConsoleError ''Error listing folders:'', Logout] \<and>
   outcome (list_folders (refused_client (Inl (Error ''Connection not available'')))) () =
     Inl (Error ''Connection not available'') \<and>
   outcome (search_emails (refused_client (Inl (Error ''Connection not available'')))
       (JObject [(''subject'', JString ''Invoice'')]) ''INBOX'' 10
       (JObject [(''envelope'', JBool True)])) () =
     Inl (Error ''Connection not available'') \<and>
   Error ''Connection not available'' \<noteq> Error ''connect ECONNREFUSED''"
  by (simp add: outcome_def trace_def inbox_resource_def inbox_try_def folders_resource_def
      folders_try_def list_folders_def list_folders_try_def search_emails_def
      search_emails_try_def try_finally_def try_catch_def bind_def await_def
      console_error_def throw_def return_def refused_client_def Error_def)

subsection \<open>Search summaries\<close>

lemma toEmailMessage_no_body:
  "toEmailMessage msg = Inr m \<Longrightarrow> m_text m = None \<and> m_html m = None"
  by (auto simp: toEmailMessage_def split: option.splits)

lemma toEmailMessage_frame:
  "toEmailMessage (msg\<lparr>source := src, bodyParts := parts\<rparr>) = toEmailMessage msg"
  by (simp add: toEmailMessage_def split: option.splits)

lemma push_each_invariant:
  assumes "push_each acc yielded = Inr ms" "\<forall>m \<in> set acc. P m"
    "\<And>msg m. toEmailMessage msg = Inr m \<Longrightarrow> P m"
  shows "\<forall>m \<in> set ms. P m"
  using assms
proof (induction acc yielded rule: push_each.induct)
  case (1 messages)
  then show ?case by simp
next
  case (2 messages msg rest)
  then show ?case by (auto split: sum.splits)
qed

lemma for_await_fetch_outcome:
  "for_await_fetch client r q u (s, tr) = (Inr ms, st) \<Longrightarrow>
     \<exists>yielded. push_each [] yielded = Inr ms"
  by (auto simp: for_await_fetch_def split: prod.splits sum.splits option.splits)

lemma search_emails_try_messages:
  assumes "outcome (search_emails_try client query folder limit fetchOptions) s = Inr res"
  shows "\<exists>ms. res = \<lparr>content = [JSON_stringify (Messages ms)], isError = None\<rparr> \<and>
            (ms = [] \<or> (\<exists>yielded. push_each [] yielded = Inr ms))"
  using assms
  by (auto simp: outcome_def search_emails_try_def bind_def await_def return_def Let_def
      for_await_fetch_def split: prod.splits sum.splits if_splits option.splits)

lemma returned_messages_search:
  "returned_messages (outcome (search_emails client query folder limit fetchOptions) s) = [] \<or>
   (\<exists>yielded. push_each [] yielded =
      Inr (returned_messages (outcome (search_emails client query folder limit fetchOptions) s)))"
proof (cases "outcome (search_emails client query folder limit fetchOptions) s")
  case (Inl e)
  then show ?thesis by (simp add: returned_messages_def)
next
  case (Inr res)
  show ?thesis
  proof (cases "outcome (search_emails_try client query folder limit fetchOptions) s")
    case (Inl e)
    with Inr show ?thesis
      unfolding search_emails_def tool_outcome
      by (auto simp: returned_messages_def split: sum.splits)
  next
    case try_ok: (Inr a)
    with Inr have "res = a"
      unfolding search_emails_def tool_outcome by (auto split: sum.splits)
    with search_emails_try_messages [OF try_ok] Inr show ?thesis
      by (auto simp: returned_messages_def)
  qed
qed

lemma toEmailMessage_sample: "toEmailMessage (sample_fetched n d) = Inr (sample_summary n d)"
  by (simp add: toEmailMessage_def sample_fetched_def sample_envelope_def sample_summary_def
      mapAddress_def)

text \<open>
  C9. Whatever the client, the query, the folder, the limit and the fetch options, every
  message \<^verbatim>\<open>search_emails\<close> returns is the object literal of the fetch loop for some
  fetched message: id, subject, from, to and date, with \<^verbatim>\<open>text\<close> and \<^verbatim>\<open>html\<close> not set.
  The literal does not read the source or the body parts of the fetched message.
\<close>

theorem search_emails_summary_only:
  "(\<forall>m \<in> set (returned_messages
        (outcome (search_emails client query folder limit fetchOptions) s)).
      m_text m = None \<and> m_html m = None \<and> (\<exists>msg. toEmailMessage msg = Inr m)) \<and>
   toEmailMessage (msg\<lparr>source := src, bodyParts := parts\<rparr>) = toEmailMessage msg"
proof -
  let ?ms = "returned_messages (outcome (search_emails client query folder limit fetchOptions) s)"
  have "\<forall>m \<in> set ?ms. m_text m = None \<and> m_html m = None \<and> (\<exists>msg. toEmailMessage msg = Inr m)"
  proof (cases "?ms = []")
    case True
    then show ?thesis by simp
  next
    case False
    with returned_messages_search [of client query folder limit fetchOptions s]
    obtain yielded where "push_each [] yielded = Inr ?ms" by blast
    then show ?thesis
      by (rule push_each_invariant) (auto dest: toEmailMessage_no_body)
  qed
  then show ?thesis by (simp add: toEmailMessage_frame)
qed


theorem search_emails_summary_only_witness:
  "returned_messages
     (outcome (search_emails (scripted_client [7] [sample_fetched 7 5000])
        (JObject [(''subject'', JString ''Invoice'')]) ''INBOX'' 10
        (JObject [(''envelope'', JBool True), (''source'', JBool True),
                  (''bodyParts'', JArray [JString ''1''])])) ())
     = [sample_summary 7 5000] \<and>
   source (sample_fetched 7 5000) = Some ''Subject: Invoice'' \<and>
   bodyParts (sample_fetched 7 5000) = Some [(''1'', ''Please find attached'')] \<and>
   m_text (sample_summary 7 5000) = None \<and>
   m_html (sample_summary 7 5000) = None"
proof -
  let ?run = "outcome (search_emails (scripted_client [7] [sample_fetched 7 5000])
        (JObject [(''subject'', JString ''Invoice'')]) ''INBOX'' 10
        (JObject [(''envelope'', JBool True), (''source'', JBool True),
                  (''bodyParts'', JArray [JString ''1''])])) ()"
  have run: "returned_messages ?run = [sample_summary 7 5000]"
    by (simp add: outcome_def search_emails_def search_emails_try_def try_finally_def
        try_catch_def bind_def await_def return_def for_await_fetch_def scripted_client_def
        slice0_def Let_def toEmailMessage_sample returned_messages_def)
  have "\<forall>m \<in> set (returned_messages ?run). m_text m = None \<and> m_html m = None"
    using search_emails_summary_only [of "scripted_client [7] [sample_fetched 7 5000]"
        "JObject [(''subject'', JString ''Invoice'')]" "''INBOX''" 10
        "JObject [(''envelope'', JBool True), (''source'', JBool True),
                  (''bodyParts'', JArray [JString ''1''])]" "()"]
    by blast
  then have "m_text (sample_summary 7 5000) = None \<and> m_html (sample_summary 7 5000) = None"
    by (simp add: run)
  then show ?thesis
    using run by (simp add: sample_fetched_def)
qed

subsection \<open>Inbox resource\<close>

lemma newer_iff:
  "m_date a \<noteq> None \<Longrightarrow> m_date b \<noteq> None \<Longrightarrow> newer a b \<longleftrightarrow> date_key a < date_key b"
  by (auto simp: newer_def date_key_def)

lemma date_key_inj:
  "m_date a \<noteq> None \<Longrightarrow> m_date b \<noteq> None \<Longrightarrow> date_key a = date_key b \<Longrightarrow> m_date a = m_date b"
  by (auto simp: date_key_def)

lemma sort_newest_first_dated:
  "\<forall>m \<in> set messages. m_date m \<noteq> None \<Longrightarrow>
     sort_newest_first messages = Inr (sort_key date_key messages)"
  by (auto simp: sort_newest_first_def list_ex_iff)

lemma slice0_take: "0 \<le> n \<Longrightarrow> slice0 xs n = take (nat n) xs"
  by (simp add: slice0_def)

text \<open>The ten newest of a list of dated messages with pairwise different dates.\<close>

lemma ten_newest:
  assumes dated: "\<forall>m \<in> set messages. m_date m \<noteq> None"
    and different: "distinct (map m_date messages)"
  defines "recent \<equiv> take 10 (sort_key date_key messages)"
  shows "length recent = min 10 (length messages)"
    and "set recent \<subseteq> set messages"
    and "sorted_wrt newer recent"
    and "\<forall>old \<in> set messages - set recent. \<forall>m \<in> set recent. newer m old"
proof -
  define S where "S = sort_key date_key messages"
  have S_set: "set S = set messages" and S_len: "length S = length messages"
    by (simp_all add: S_def)
  have inj: "inj_on date_key (set messages)"
  proof (rule inj_onI)
    fix a b
    assume a: "a \<in> set messages" and b: "b \<in> set messages" and k: "date_key a = date_key b"
    then have "m_date a = m_date b" using dated by (intro date_key_inj) auto
    moreover have "inj_on m_date (set messages)" "distinct messages"
      using different by (auto simp: distinct_map)
    ultimately show "a = b" using a b by (auto dest: inj_onD)
  qed
  have "distinct messages" using different by (simp add: distinct_map)
  then have "distinct S" by (simp add: S_def)
  then have dk: "distinct (map date_key S)"
    using inj by (simp add: distinct_map S_set)
  have "sorted (map date_key S)" by (simp add: S_def)
  with dk have "sorted_wrt (<) (map date_key S)"
    by (simp add: strict_sorted_iff)
  then have strict: "sorted_wrt (\<lambda>a b. date_key a < date_key b) S"
    by (simp add: sorted_wrt_map)
  have split: "S = recent @ drop 10 S" by (simp add: recent_def S_def)
  show "length recent = min 10 (length messages)"
    by (simp add: recent_def min.commute)
  show sub: "set recent \<subseteq> set messages"
    using set_take_subset [of 10 S] by (simp add: recent_def S_def)
  have "sorted_wrt (\<lambda>a b. date_key a < date_key b) recent"
    using strict split by (metis sorted_wrt_append)
  then show "sorted_wrt newer recent"
  proof (rule sorted_wrt_mono_rel [rotated])
    fix a b
    assume "a \<in> set recent" "b \<in> set recent" "date_key a < date_key b"
    then show "newer a b" using sub dated by (subst newer_iff) auto
  qed
  show "\<forall>old \<in> set messages - set recent. \<forall>m \<in> set recent. newer m old"
  proof (intro ballI)
    fix old m
    assume o: "old \<in> set messages - set recent" and m: "m \<in> set recent"
    then have "old \<in> set (drop 10 S)"
      using split S_set by (metis DiffD1 DiffD2 Un_iff set_append)
    then have "date_key m < date_key old"
      using strict split m by (metis sorted_wrt_append)
    then show "newer m old" using o m sub dated by (subst newer_iff) auto
  qed
qed


lemma inbox_try_run:
  assumes "connect client s = (Inr (), s1)"
    and "mailboxOpen client ''INBOX'' s1 = (Inr (), s2)"
    and "fetch client (SeqString ''1:*'') (JObject [(''envelope'', JBool True)]) False s2
           = ((yielded, None), s3)"
    and "push_each [] yielded = Inr messages"
    and "\<forall>m \<in> set messages. m_date m \<noteq> None"
  shows "outcome (inbox_try emailUser client) s =
           Inr \<lparr>contents =
                 [\<lparr>uri = ''mailto:'' @ emailUser @ ''/inbox'', mimeType = ''application/json'',
                   rc_text = JSON_stringify (Messages (take 10 (sort_key date_key messages)))\<rparr>]\<rparr>"
    and "final_state (inbox_try emailUser client) s = s3"
  using assms
  by (simp_all add: outcome_def final_state_def inbox_try_def bind_def await_def return_def
      lift_def for_await_fetch_def Let_def sort_newest_first_dated slice0_take)

lemma push_each_twelve: "push_each [] twelve_fetched = Inr twelve_summaries"
  by (simp add: twelve_fetched_def twelve_summaries_def toEmailMessage_sample)

lemma date_key_sample: "date_key (sample_summary n d) = - d"
  by (simp add: date_key_def sample_summary_def)

lemma m_date_sample: "m_date (sample_summary n d) = Some d"
  by (simp add: sample_summary_def)

lemma twelve_sorted:
  "take 10 (sort_key date_key twelve_summaries) =
     [sample_summary 2 12000, sample_summary 6 11000, sample_summary 11 10000,
      sample_summary 8 9000, sample_summary 4 8000, sample_summary 12 7000,
      sample_summary 9 6000, sample_summary 1 5000, sample_summary 10 4000,
      sample_summary 5 3000]"
  by (simp add: twelve_summaries_def date_key_sample)

text \<open>
  The resource on the output of its loop: when every call returns and the loop turns
  the fetched messages into \<open>messages\<close>, all dated and with pairwise different dates,
  the content is the ten newest of \<open>messages\<close> (all of them when there are fewer), from
  the newest to the oldest.
\<close>

lemma inbox_ten_of_loop:
  assumes "connect client s = (Inr (), s1)"
    and "mailboxOpen client ''INBOX'' s1 = (Inr (), s2)"
    and "fetch client (SeqString ''1:*'') (JObject [(''envelope'', JBool True)]) False s2
           = ((yielded, None), s3)"
    and "push_each [] yielded = Inr messages"
    and "logout client s3 = (Inr (), s4)"
    and "\<forall>m \<in> set messages. m_date m \<noteq> None"
    and "distinct (map m_date messages)"
  shows "\<exists>recent.
      outcome (inbox_resource emailUser client) s =
        Inr \<lparr>contents =
              [\<lparr>uri = ''mailto:'' @ emailUser @ ''/inbox'', mimeType = ''application/json'',
                rc_text = JSON_stringify (Messages recent)\<rparr>]\<rparr> \<and>
      length recent = min 10 (length messages) \<and>
      set recent \<subseteq> set messages \<and>
      sorted_wrt newer recent \<and>
      (\<forall>old \<in> set messages - set recent. \<forall>m \<in> set recent. newer m old)"
proof -
  let ?recent = "take 10 (sort_key date_key messages)"
  have "outcome (inbox_resource emailUser client) s =
        Inr \<lparr>contents =
              [\<lparr>uri = ''mailto:'' @ emailUser @ ''/inbox'', mimeType = ''application/json'',
                rc_text = JSON_stringify (Messages ?recent)\<rparr>]\<rparr>"
    unfolding inbox_resource_def resource_outcome
    using inbox_try_run [OF assms(1-4) assms(6)] assms(5) by simp
  moreover note ten_newest [OF assms(6) assms(7)]
  ultimately show ?thesis by blast
qed


lemma toEmailMessage_complete:
  assumes "complete_envelope f"
  shows "\<exists>m. toEmailMessage f = Inr m \<and> m_date m = fetched_date f \<and> m_date m \<noteq> None \<and> m_id m = uid f"
  using assms
  by (auto simp: complete_envelope_def toEmailMessage_def fetched_date_def split: option.splits)

lemma push_each_complete:
  assumes "\<forall>f \<in> set yielded. complete_envelope f"
  shows "\<exists>ms. push_each acc yielded = Inr (acc @ ms) \<and>
           list_all2 (\<lambda>f m. toEmailMessage f = Inr m) yielded ms"
  using assms
proof (induction yielded arbitrary: acc)
  case Nil
  then show ?case by simp
next
  case (Cons f rest)
  from Cons.prems obtain m where m: "toEmailMessage f = Inr m"
    using toEmailMessage_complete [of f] by auto
  from Cons.IH [of "acc @ [m]"] Cons.prems obtain ms where
    ms: "push_each (acc @ [m]) rest = Inr ((acc @ [m]) @ ms)"
      "list_all2 (\<lambda>f m. toEmailMessage f = Inr m) rest ms"
    by auto
  have "push_each acc (f # rest) = Inr (acc @ (m # ms))" using m ms by simp
  moreover have "list_all2 (\<lambda>f m. toEmailMessage f = Inr m) (f # rest) (m # ms)"
    using m ms by simp
  ultimately show ?case by blast
qed

text \<open>
  The same on the fetched messages: when every call returns and every fetched message
  has an envelope with \<^verbatim>\<open>from\<close>, \<^verbatim>\<open>to\<close> and \<^verbatim>\<open>date\<close>, the dates pairwise different,
  the content has ten messages when ten or more were fetched and as many as were fetched
  otherwise, each the summary of a fetched message, from the newest to the oldest, and
  the summary of every fetched message is among them or older than all of them.
\<close>

lemma inbox_ten_most_recent:
  assumes "connect client s = (Inr (), s1)"
    and "mailboxOpen client ''INBOX'' s1 = (Inr (), s2)"
    and "fetch client (SeqString ''1:*'') (JObject [(''envelope'', JBool True)]) False s2
           = ((yielded, None), s3)"
    and "logout client s3 = (Inr (), s4)"
    and complete: "\<forall>f \<in> set yielded. complete_envelope f"
    and different: "distinct (map fetched_date yielded)"
  shows "\<exists>recent.
      outcome (inbox_resource emailUser client) s =
        Inr \<lparr>contents =
              [\<lparr>uri = ''mailto:'' @ emailUser @ ''/inbox'', mimeType = ''application/json'',
                rc_text = JSON_stringify (Messages recent)\<rparr>]\<rparr> \<and>
      length recent = min 10 (length yielded) \<and>
      (\<forall>m \<in> set recent. \<exists>f \<in> set yielded. toEmailMessage f = Inr m) \<and>
      sorted_wrt newer recent \<and>
      (\<forall>f \<in> set yielded. \<forall>m'. toEmailMessage f = Inr m' \<longrightarrow>
         m' \<in> set recent \<or> (\<forall>m \<in> set recent. newer m m'))"
proof -
  from push_each_complete [OF complete, of "[]"] obtain messages where
    loop: "push_each [] yielded = Inr messages"
    and rel: "list_all2 (\<lambda>f m. toEmailMessage f = Inr m) yielded messages"
    by auto
  have len: "length messages = length yielded"
    using rel by (simp add: list_all2_lengthD)
  have nth: "toEmailMessage (yielded ! i) = Inr (messages ! i)" if "i < length yielded" for i
    using rel that by (simp add: list_all2_conv_all_nth)
  have date_both: "m_date (messages ! i) = fetched_date (yielded ! i) \<and>
      m_date (messages ! i) \<noteq> None"
    if "i < length yielded" for i
  proof -
    have "complete_envelope (yielded ! i)" using complete that by simp
    from toEmailMessage_complete [OF this] obtain m where
      "toEmailMessage (yielded ! i) = Inr m" "m_date m = fetched_date (yielded ! i)"
      "m_date m \<noteq> None"
      by blast
    with nth [OF that] show ?thesis by simp
  qed
  have date_eq: "m_date (messages ! i) = fetched_date (yielded ! i)"
    if "i < length yielded" for i
    using date_both [OF that] by (rule conjunct1)
  have date_some: "m_date (messages ! i) \<noteq> None" if "i < length yielded" for i
    using date_both [OF that] by (rule conjunct2)
  have dates: "map m_date messages = map fetched_date yielded"
    by (rule nth_equalityI) (simp_all add: len date_eq)
  have dated: "\<forall>m \<in> set messages. m_date m \<noteq> None"
  proof
    fix m
    assume "m \<in> set messages"
    then obtain i where i: "i < length messages" "messages ! i = m"
      by (auto simp: in_set_conv_nth)
    then have "i < length yielded" using len by simp
    then show "m_date m \<noteq> None"
      unfolding i(2) [symmetric] by (rule date_some)
  qed
  have diff: "distinct (map m_date messages)"
    using different dates by simp
  from inbox_ten_of_loop [OF assms(1-3) loop assms(4) dated diff, of emailUser]
  obtain recent where r:
    "outcome (inbox_resource emailUser client) s =
        Inr \<lparr>contents =
              [\<lparr>uri = ''mailto:'' @ emailUser @ ''/inbox'', mimeType = ''application/json'',
                rc_text = JSON_stringify (Messages recent)\<rparr>]\<rparr>"
    "length recent = min 10 (length messages)"
    "set recent \<subseteq> set messages"
    "sorted_wrt newer recent"
    "\<forall>old \<in> set messages - set recent. \<forall>m \<in> set recent. newer m old"
    by blast
  have from_fetch: "\<exists>f \<in> set yielded. toEmailMessage f = Inr m" if "m \<in> set messages" for m
  proof -
    from that obtain i where "i < length messages" "messages ! i = m"
      by (auto simp: in_set_conv_nth)
    then show ?thesis using nth [of i] len by (auto intro: bexI [of _ "yielded ! i"])
  qed
  have in_messages: "m' \<in> set messages" if "f \<in> set yielded" "toEmailMessage f = Inr m'" for f m'
  proof -
    from that obtain i where i: "i < length yielded" "yielded ! i = f"
      by (auto simp: in_set_conv_nth)
    then have "messages ! i = m'" using nth [of i] that by simp
    then show ?thesis using i len by (auto simp: in_set_conv_nth)
  qed
  have "\<forall>m \<in> set recent. \<exists>f \<in> set yielded. toEmailMessage f = Inr m"
    using r(3) from_fetch by blast
  moreover have "\<forall>f \<in> set yielded. \<forall>m'. toEmailMessage f = Inr m' \<longrightarrow>
         m' \<in> set recent \<or> (\<forall>m \<in> set recent. newer m m')"
    using r(5) in_messages by blast
  ultimately show ?thesis
    using r(1,2,4) len by auto
qed

lemma inbox_twelve_example:
  "push_each [] twelve_fetched = Inr twelve_summaries \<and>
   distinct (map m_date twelve_summaries) \<and>
   (\<exists>recent.
      outcome (inbox_resource ''ann@example.org'' (scripted_client [] twelve_fetched)) () =
        Inr \<lparr>contents =
              [\<lparr>uri = ''mailto:ann@example.org/inbox'', mimeType = ''application/json'',
                rc_text = JSON_stringify (Messages recent)\<rparr>]\<rparr> \<and>
      length recent = 10 \<and>
      set recent \<subseteq> set twelve_summaries \<and>
      sorted_wrt newer recent \<and>
      (\<forall>old \<in> set twelve_summaries - set recent. \<forall>m \<in> set recent. newer m old)) \<and>
   outcome (inbox_resource ''ann@example.org'' (scripted_client [] twelve_fetched)) () =
     Inr \<lparr>contents =
           [\<lparr>uri = ''mailto:ann@example.org/inbox'', mimeType = ''application/json'',
             rc_text = JSON_stringify (Messages
               [sample_summary 2 12000, sample_summary 6 11000, sample_summary 11 10000,
                sample_summary 8 9000, sample_summary 4 8000, sample_summary 12 7000,
                sample_summary 9 6000, sample_summary 1 5000, sample_summary 10 4000,
                sample_summary 5 3000])\<rparr>]\<rparr>"
proof -
  let ?c = "scripted_client [] twelve_fetched"
  have h1: "connect ?c () = (Inr (), ())"
    and h2: "mailboxOpen ?c ''INBOX'' () = (Inr (), ())"
    and h3: "fetch ?c (SeqString ''1:*'') (JObject [(''envelope'', JBool True)]) False ()
           = ((twelve_fetched, None), ())"
    and h5: "logout ?c () = (Inr (), ())"
    by (simp_all add: scripted_client_def)
  have h6: "\<forall>m \<in> set twelve_summaries. m_date m \<noteq> None"
    by (simp add: twelve_summaries_def m_date_sample)
  have h7: "distinct (map m_date twelve_summaries)"
    by (simp add: twelve_summaries_def m_date_sample)
  have len: "length twelve_summaries = 12"
    by (simp add: twelve_summaries_def)
  have run: "outcome (inbox_resource ''ann@example.org'' ?c) () =
     Inr \<lparr>contents =
           [\<lparr>uri = ''mailto:ann@example.org/inbox'', mimeType = ''application/json'',
             rc_text = JSON_stringify (Messages (take 10 (sort_key date_key twelve_summaries)))\<rparr>]\<rparr>"
    unfolding inbox_resource_def resource_outcome
    using inbox_try_run [OF h1 h2 h3 push_each_twelve h6, of "''ann@example.org''"] h5 by simp
  from inbox_ten_of_loop [OF h1 h2 h3 push_each_twelve h5 h6 h7, of "''ann@example.org''"]
  have "\<exists>recent.
      outcome (inbox_resource ''ann@example.org'' ?c) () =
        Inr \<lparr>contents =
              [\<lparr>uri = ''mailto:ann@example.org/inbox'', mimeType = ''application/json'',
                rc_text = JSON_stringify (Messages recent)\<rparr>]\<rparr> \<and>
      length recent = 10 \<and>
      set recent \<subseteq> set twelve_summaries \<and>
      sorted_wrt newer recent \<and>
      (\<forall>old \<in> set twelve_summaries - set recent. \<forall>m \<in> set recent. newer m old)"
    by (simp add: len)
  then show ?thesis
    using push_each_twelve h7 run twelve_sorted by simp
qed

text \<open>
  C7 does not hold of the code. The claim: with messages of pairwise different dates in
  the mailbox, the inbox resource returns the ten messages with the ten largest dates,
  from the newest to the oldest. The loop of the resource reads
  \<^verbatim>\<open>message.envelope.to.map(mapAddress)\<close> with nothing around it, and a message sent to
  hidden recipients only has an envelope without \<^verbatim>\<open>to\<close>. With twelve messages of
  pairwise different dates, one of them such a message, the loop throws a \<^verbatim>\<open>TypeError\<close>,
  the resource logs it, logs out and throws it to the host: no message is returned.
\<close>

theorem inbox_throws_without_to:
  "map fetched_date twelve_one_without_to =
     [Some 5000, Some 12000, Some 1000, Some 8000, Some 3000, Some 11000,
      Some 2000, Some 9000, Some 6000, Some 4000, Some 10000, Some 7000] \<and>
   outcome (inbox_resource ''ann@example.org'' (scripted_client [] twelve_one_without_to)) () =
     Inl (TypeError ''Cannot read properties of undefined (reading 'map')'') \<and>
   trace (inbox_resource ''ann@example.org'' (scripted_client [] twelve_one_without_to)) () =
     [Connect, MailboxOpen ''INBOX'',
      Fetch (SeqString ''1:*'') (JObject [(''envelope'', JBool True)]) False,
      ConsoleError ''Error reading inbox:'', Logout]"
proof -
  have d: "fetched_date (sample_fetched n t) = Some t" for n t
    by (simp add: fetched_date_def sample_fetched_def sample_envelope_def)
  have dates: "map fetched_date twelve_one_without_to =
     [Some 5000, Some 12000, Some 1000, Some 8000, Some 3000, Some 11000,
      Some 2000, Some 9000, Some 6000, Some 4000, Some 10000, Some 7000]"
    by (simp add: twelve_one_without_to_def d) (simp add: fetched_date_def)
  have loop: "push_each [] twelve_one_without_to =
      Inl (TypeError ''Cannot read properties of undefined (reading 'map')'')"
    by (simp add: twelve_one_without_to_def toEmailMessage_sample) (simp add: toEmailMessage_def)
  have run: "inbox_resource ''ann@example.org'' (scripted_client [] twelve_one_without_to) ((), []) =
      (Inl (TypeError ''Cannot read properties of undefined (reading 'map')''),
       ((), [Connect, MailboxOpen ''INBOX'',
          Fetch (SeqString ''1:*'') (JObject [(''envelope'', JBool True)]) False,
          ConsoleError ''Error reading inbox:'', Logout]))"
    by (simp add: inbox_resource_def inbox_try_def try_finally_def try_catch_def bind_def
        await_def console_error_def throw_def for_await_fetch_def scripted_client_def Let_def loop)
  from dates run show ?thesis by (simp add: outcome_def trace_def)
qed

subsection \<open>Search limit\<close>

text \<open>
  The limit a handler of \<^verbatim>\<open>search_emails\<close> receives is a positive integer, 10 when the
  call gives none; the folder is INBOX when the call gives none.
\<close>

lemma limit_schema:
  assumes "zDefault (JNumber (Finite 10)) (zPositive (zInt zNumber)) v = Some w"
  shows "\<exists>n. w = JNumber (Finite (of_int n)) \<and> 0 < n"
proof (cases "v = JUndefined")
  case True
  with assms have "w = JNumber (Finite (of_int 10))" by (simp add: zDefault_def)
  then show ?thesis by (intro exI [of _ 10]) simp
next
  case False
  with assms obtain x where w: "w = JNumber x" and x: "isInteger x" "isPositive x"
    by (auto simp: zDefault_def zPositive_def zInt_def zNumber_def
        split: option.splits jsval.splits if_splits)
  from x obtain n :: int where "x = Finite (of_int n)" "0 < n"
    by (cases x) auto
  with w show ?thesis by blast
qed

lemma search_emails_input_defaults:
  "search_emails_input
     (JObject [(''query'', JObject [(''subject'', JString ''Invoice'')]),
               (''fetchOptions'', JObject [(''envelope'', JBool True)])]) =
   Some (JObject [(''query'', JObject [(''subject'', JString ''Invoice'')]),
                  (''fetchOptions'', JObject [(''envelope'', JBool True)]),
                  (''folder'', JString ''INBOX''),
                  (''limit'', JNumber (Finite 10))])"
  by (simp add: search_emails_input_def searchQuerySchema_def fetchOptionsSchema_def
      searchQueryShape_def zObject_def get_prop_def zOptional_def zDefault_def zMin_def
      zString_def zBoolean_def)


text \<open>
  What \<^verbatim>\<open>search_emails\<close> does when every call returns: it asks the search for unique ids,
  passes the first \<open>limit\<close> of them to the fetch, in the order of the search, with the
  third argument of the fetch left out, and returns the fetched messages in the order
  they are yielded.
\<close>

lemma search_emails_run:
  assumes "connect client s = (Inr (), s1)"
    and "mailboxOpen client folder s1 = (Inr (), s2)"
    and "search client query True s2 = (Inr uids, s3)"
    and "0 < limit" "uids \<noteq> []"
    and "fetch client (Numbers (take (nat limit) uids)) fetchOptions False s3
           = ((yielded, None), s4)"
    and "push_each [] yielded = Inr messages"
    and "logout client s4 = (Inr (), s5)"
  shows "outcome (search_emails client query folder limit fetchOptions) s =
           Inr \<lparr>content = [JSON_stringify (Messages messages)], isError = None\<rparr>"
    and "trace (search_emails client query folder limit fetchOptions) s =
           [Connect, MailboxOpen folder, Search query True,
            Fetch (Numbers (take (nat limit) uids)) fetchOptions False, Logout]"
  using assms
  by (simp_all add: outcome_def trace_def search_emails_def search_emails_try_def
      try_finally_def try_catch_def bind_def await_def return_def for_await_fetch_def
      slice0_def Let_def)

lemma push_each_map:
  "push_each acc yielded = Inr ms \<Longrightarrow> map m_id ms = map m_id acc @ map uid yielded"
proof (induction acc yielded rule: push_each.induct)
  case (1 messages)
  then show ?case by simp
next
  case (2 messages msg rest)
  then show ?case
    by (auto simp: toEmailMessage_def split: sum.splits option.splits)
qed


text \<open>
  So the tool returns the messages of the first \<open>limit\<close> unique ids, in the order of the
  search, whenever the fetch yields, for the numbers it is given, the messages that have
  these numbers as unique ids.
\<close>

lemma search_emails_limit:
  assumes "connect client s = (Inr (), s1)"
    and "mailboxOpen client folder s1 = (Inr (), s2)"
    and "search client query True s2 = (Inr uids, s3)"
    and "0 < limit" "uids \<noteq> []"
    and "fetch client (Numbers (take (nat limit) uids)) fetchOptions False s3
           = ((yielded, None), s4)"
    and "map uid yielded = take (nat limit) uids"
    and "push_each [] yielded = Inr messages"
    and "logout client s4 = (Inr (), s5)"
  shows "returned_messages (outcome (search_emails client query folder limit fetchOptions) s)
           = messages"
    and "map m_id messages = take (nat limit) uids"
    and "length messages = min (nat limit) (length uids)"
proof -
  show "returned_messages (outcome (search_emails client query folder limit fetchOptions) s)
           = messages"
    using search_emails_run(1) [OF assms(1-6) assms(8,9)]
    by (simp add: returned_messages_def)
  show ids: "map m_id messages = take (nat limit) uids"
    using push_each_map [OF assms(8)] assms(7) by simp
  have "length messages = length (map m_id messages)" by simp
  also have "\<dots> = min (nat limit) (length uids)"
    by (simp only: ids length_take min.commute)
  finally show "length messages = min (nat limit) (length uids)" .
qed

lemma numbered_two:
  "numbered two_messages =
     [(1, \<lparr>sm_uid = 101, sm_envelope = sample_envelope 1000, sm_source = ''Subject: Invoice''\<rparr>),
      (2, \<lparr>sm_uid = 102, sm_envelope = sample_envelope 2000, sm_source = ''Subject: Invoice''\<rparr>)]"
  by (simp add: numbered_def two_messages_def upt_rec)

lemma numbered_three:
  "numbered three_messages =
     [(1, \<lparr>sm_uid = 2, sm_envelope = sample_envelope 1000, sm_source = ''Subject: Invoice''\<rparr>),
      (2, \<lparr>sm_uid = 3, sm_envelope = sample_envelope 2000, sm_source = ''Subject: Invoice''\<rparr>),
      (3, \<lparr>sm_uid = 5, sm_envelope = sample_envelope 3000, sm_source = ''Subject: Invoice''\<rparr>)]"
  by (simp add: numbered_def three_messages_def upt_rec)

text \<open>
  C1 does not hold of the code. The search is asked for unique ids, the fetch is called
  without \<^verbatim>\<open>{ uid: true }\<close> and so reads them as sequence numbers. On a folder whose two
  messages have the unique ids 101 and 102 the search returns both ids, the fetch is sent
  the numbers 101 and 102, no message has such a sequence number, and the tool returns
  no message where C1 says two; the same fetch with \<^verbatim>\<open>{ uid: true }\<close> yields both. On a
  folder with the unique ids 2, 3 and 5 and with limit 2 the tool returns the messages
  with the ids 3 and 5, which are not those of the first two ids of the search.
\<close>

theorem search_emails_fetches_by_sequence_number:
  "fst (search (mailbox_client match_all two_messages)
          (JObject [(''subject'', JString ''Invoice'')]) True ()) = Inr [101, 102] \<and>
   outcome (search_emails (mailbox_client match_all two_messages)
       (JObject [(''subject'', JString ''Invoice'')]) ''INBOX'' 10
       (JObject [(''envelope'', JBool True)])) ()
     = Inr \<lparr>content = [JSON_stringify (Messages [])], isError = None\<rparr> \<and>
   trace (search_emails (mailbox_client match_all two_messages)
       (JObject [(''subject'', JString ''Invoice'')]) ''INBOX'' 10
       (JObject [(''envelope'', JBool True)])) ()
     = [Connect, MailboxOpen ''INBOX'', Search (JObject [(''subject'', JString ''Invoice'')]) True,
        Fetch (Numbers [101, 102]) (JObject [(''envelope'', JBool True)]) False, Logout] \<and>
   map uid (fst (fst (fetch (mailbox_client match_all two_messages) (Numbers [101, 102])
       (JObject [(''envelope'', JBool True)]) True ()))) = [101, 102] \<and>
   fst (search (mailbox_client match_all three_messages)
          (JObject [(''subject'', JString ''Invoice'')]) True ()) = Inr [2, 3, 5] \<and>
   map m_id (returned_messages
     (outcome (search_emails (mailbox_client match_all three_messages)
       (JObject [(''subject'', JString ''Invoice'')]) ''INBOX'' 2
       (JObject [(''envelope'', JBool True)])) ())) = [3, 5]"
proof -
  have a: "fst (search (mailbox_client match_all two_messages)
          (JObject [(''subject'', JString ''Invoice'')]) True ()) = Inr [101, 102]"
    by (simp add: mailbox_client_def match_all_def numbered_two)
  have b: "outcome (search_emails (mailbox_client match_all two_messages)
       (JObject [(''subject'', JString ''Invoice'')]) ''INBOX'' 10
       (JObject [(''envelope'', JBool True)])) ()
     = Inr \<lparr>content = [JSON_stringify (Messages [])], isError = None\<rparr>"
    by (simp add: outcome_def search_emails_def search_emails_try_def try_finally_def
        try_catch_def bind_def await_def return_def for_await_fetch_def slice0_def Let_def
        mailbox_client_def match_all_def numbered_two in_range_def)
  have c: "trace (search_emails (mailbox_client match_all two_messages)
       (JObject [(''subject'', JString ''Invoice'')]) ''INBOX'' 10
       (JObject [(''envelope'', JBool True)])) ()
     = [Connect, MailboxOpen ''INBOX'', Search (JObject [(''subject'', JString ''Invoice'')]) True,
        Fetch (Numbers [101, 102]) (JObject [(''envelope'', JBool True)]) False, Logout]"
    by (simp add: trace_def search_emails_def search_emails_try_def try_finally_def
        try_catch_def bind_def await_def return_def for_await_fetch_def slice0_def Let_def
        mailbox_client_def match_all_def numbered_two in_range_def)
  have d: "map uid (fst (fst (fetch (mailbox_client match_all two_messages) (Numbers [101, 102])
       (JObject [(''envelope'', JBool True)]) True ()))) = [101, 102]"
    by (simp add: mailbox_client_def numbered_two in_range_def)
  have e: "fst (search (mailbox_client match_all three_messages)
          (JObject [(''subject'', JString ''Invoice'')]) True ()) = Inr [2, 3, 5]"
    by (simp add: mailbox_client_def match_all_def numbered_three)
  have f: "map m_id (returned_messages
     (outcome (search_emails (mailbox_client match_all three_messages)
       (JObject [(''subject'', JString ''Invoice'')]) ''INBOX'' 2
       (JObject [(''envelope'', JBool True)])) ())) = [3, 5]"
    by (simp add: outcome_def search_emails_def search_emails_try_def try_finally_def
        try_catch_def bind_def await_def return_def for_await_fetch_def slice0_def Let_def
        mailbox_client_def match_all_def numbered_three in_range_def returned_messages_def
        wants_def get_prop_def toEmailMessage_def sample_envelope_def)
  from a b c d e f show ?thesis by blast
qed

subsection \<open>Address mapper\<close>

text \<open>
  C4. The address mapper is a total function: it has a value on every address record.
  With the address field absent the mapped address is the empty string; a present
  address is kept; the name is carried over as it is, present or absent.
\<close>

theorem mapAddress_total:
  "name (mapAddress addr) = ma_name addr \<and>
   (ma_address addr = None \<longrightarrow> address (mapAddress addr) = '''') \<and>
   (ma_address addr = Some a \<longrightarrow> address (mapAddress addr) = a)"
  by (simp add: mapAddress_def)

theorem mapAddress_total_witness:
  "ma_address \<lparr>ma_name = Some ''Ann'', ma_address = None\<rparr> = None \<and>
   mapAddress \<lparr>ma_name = Some ''Ann'', ma_address = None\<rparr> = \<lparr>name = Some ''Ann'', address = ''''\<rparr> \<and>
   mapAddress \<lparr>ma_name = None, ma_address = None\<rparr> = \<lparr>name = None, address = ''''\<rparr>"
  using mapAddress_total [of "\<lparr>ma_name = Some ''Ann'', ma_address = None\<rparr>"]
    mapAddress_total [of "\<lparr>ma_name = None, ma_address = None\<rparr>"]
  by (simp add: mapAddress_def)

end
